theory Spec2Isabelle
  imports Complex_Main "HOL-Library.Word" "HOL-Library.Log_Nat"
begin

section \<open>Single-precision floating point (the C++ type \<open>float\<close>)\<close>

text \<open>
  \<open>UnityAspectLock.cpp\<close> computes with IEEE-754 binary32 values, and every operation
  rounds its exact result to the nearest one.  A value is a
  rational number, an infinity or a NaN.  The sign of zero is not represented: the program
  only divides by \<open>aspectHeight\<close> after checking \<open>aspectHeight <= 0.0f\<close> and by
  \<open>g_aspect\<close> after checking \<open>g_aspect <= 0.0f\<close>, compares, and rounds, and none of
  these distinguishes \<open>-0.0f\<close> from \<open>+0.0f\<close>; a zero divisor is treated as \<open>+0.0f\<close>.
\<close>

datatype float = Finite rat | PInf | NInf | NaN

text \<open>Rounding a rational to the nearest integer, ties to even.\<close>

definition round_half_even :: "rat \<Rightarrow> int" where
  "round_half_even x =
     (let f = \<lfloor>x\<rfloor>; d = x - of_int f
      in if d < 1 / 2 then f else if 1 / 2 < d then f + 1 else if even f then f else f + 1)"

text \<open>The binary exponent \<open>\<lfloor>log\<^sub>2 a\<rfloor>\<close> of a positive rational.\<close>

definition flog2 :: "rat \<Rightarrow> int" where
  "flog2 a =
     (let n = fst (quotient_of a); d = snd (quotient_of a); k = bitlen n - bitlen d
      in if 2 powi k \<le> a then k else k - 1)"

text \<open>
  Round to nearest, ties to even, with a 24-bit significand, exponents from \<open>-126\<close>
  (below which the spacing stays \<open>2\<^sup>-\<^sup>1\<^sup>4\<^sup>9\<close>: subnormal numbers) to \<open>127\<close> (above which
  the result is an infinity).
\<close>

definition round_f32 :: "rat \<Rightarrow> float" where
  "round_f32 q =
     (if q = 0 then Finite 0
      else let a = \<bar>q\<bar>;
               e = max (flog2 a) (- 126);
               u = 2 powi (e - 23);
               r = of_int (round_half_even (a / u)) * u
           in if 2 ^ 128 \<le> r then (if 0 < q then PInf else NInf)
              else Finite (if 0 < q then r else - r))"

fun fdiv :: "float \<Rightarrow> float \<Rightarrow> float" where
  "fdiv NaN y = NaN"
| "fdiv x NaN = NaN"
| "fdiv (Finite a) (Finite b) =
     (if b = 0 then (if a = 0 then NaN else if 0 < a then PInf else NInf)
      else round_f32 (a / b))"
| "fdiv (Finite a) PInf = Finite 0"
| "fdiv (Finite a) NInf = Finite 0"
| "fdiv PInf (Finite b) = (if 0 \<le> b then PInf else NInf)"
| "fdiv NInf (Finite b) = (if 0 \<le> b then NInf else PInf)"
| "fdiv PInf PInf = NaN"
| "fdiv PInf NInf = NaN"
| "fdiv NInf PInf = NaN"
| "fdiv NInf NInf = NaN"

fun fmul :: "float \<Rightarrow> float \<Rightarrow> float" where
  "fmul NaN y = NaN"
| "fmul x NaN = NaN"
| "fmul (Finite a) (Finite b) = round_f32 (a * b)"
| "fmul (Finite a) PInf = (if a = 0 then NaN else if 0 < a then PInf else NInf)"
| "fmul (Finite a) NInf = (if a = 0 then NaN else if 0 < a then NInf else PInf)"
| "fmul PInf (Finite b) = (if b = 0 then NaN else if 0 < b then PInf else NInf)"
| "fmul NInf (Finite b) = (if b = 0 then NaN else if 0 < b then NInf else PInf)"
| "fmul PInf PInf = PInf"
| "fmul PInf NInf = NInf"
| "fmul NInf PInf = NInf"
| "fmul NInf NInf = PInf"

fun fsub :: "float \<Rightarrow> float \<Rightarrow> float" where
  "fsub NaN y = NaN"
| "fsub x NaN = NaN"
| "fsub (Finite a) (Finite b) = round_f32 (a - b)"
| "fsub (Finite a) PInf = NInf"
| "fsub (Finite a) NInf = PInf"
| "fsub PInf (Finite b) = PInf"
| "fsub NInf (Finite b) = NInf"
| "fsub PInf PInf = NaN"
| "fsub PInf NInf = PInf"
| "fsub NInf PInf = NInf"
| "fsub NInf NInf = NaN"

text \<open>\<open>std::fabs\<close>.\<close>

fun fabs :: "float \<Rightarrow> float" where
  "fabs (Finite a) = Finite \<bar>a\<bar>"
| "fabs PInf = PInf"
| "fabs NInf = PInf"
| "fabs NaN = NaN"

text \<open>The comparisons \<open><\<close> and \<open><=\<close>: false as soon as one side is a NaN.\<close>

fun flt :: "float \<Rightarrow> float \<Rightarrow> bool" where
  "flt NaN y = False"
| "flt x NaN = False"
| "flt (Finite a) (Finite b) = (a < b)"
| "flt (Finite a) PInf = True"
| "flt (Finite a) NInf = False"
| "flt PInf y = False"
| "flt NInf (Finite b) = True"
| "flt NInf PInf = True"
| "flt NInf NInf = False"

fun fle :: "float \<Rightarrow> float \<Rightarrow> bool" where
  "fle NaN y = False"
| "fle x NaN = False"
| "fle (Finite a) (Finite b) = (a \<le> b)"
| "fle (Finite a) PInf = True"
| "fle (Finite a) NInf = False"
| "fle PInf (Finite b) = False"
| "fle PInf PInf = True"
| "fle PInf NInf = False"
| "fle NInf y = True"

section \<open>Machine integers\<close>

text \<open>
  \<open>LONG\<close> and \<open>int\<close> are 32 bits wide on both Windows targets of the DLL; sums and
  differences wrap around in two's complement, and comparisons read the word as signed.
\<close>

type_synonym LONG = "32 word"

text \<open>The conversion \<open>(float)n\<close> of an \<open>int\<close>.\<close>

definition int_to_float :: "LONG \<Rightarrow> float" where
  "int_to_float n = round_f32 (of_int (sint n))"

text \<open>
  \<open>std::lround\<close> rounds to the nearest integer, halfway cases away from zero, and returns a
  \<open>long\<close>.  For a NaN, an infinity or a rounded value outside the range of \<open>long\<close> the
  standard leaves the returned number unspecified: it is \<open>unspec v\<close>, for a function
  \<open>unspec\<close> that stands for the platform's choice.
\<close>

definition round_half_away :: "rat \<Rightarrow> int" where
  "round_half_away q = (if 0 \<le> q then \<lfloor>q + 1 / 2\<rfloor> else - \<lfloor>- q + 1 / 2\<rfloor>)"

definition in_long_range :: "int \<Rightarrow> bool" where
  "in_long_range n \<longleftrightarrow> - (2 ^ 31) \<le> n \<and> n < 2 ^ 31"

fun lround :: "(float \<Rightarrow> LONG) \<Rightarrow> float \<Rightarrow> LONG" where
  "lround unspec (Finite q) =
     (if in_long_range (round_half_away q) then word_of_int (round_half_away q)
      else unspec (Finite q))"
| "lround unspec v = unspec v"

definition RoundToInt :: "(float \<Rightarrow> LONG) \<Rightarrow> float \<Rightarrow> LONG" where
  "RoundToInt unspec v = lround unspec v"

section \<open>Process-wide state and the window system\<close>

text \<open>A window handle; \<open>0\<close> is \<open>nullptr\<close>.\<close>

type_synonym HWND = nat

text \<open>The globals \<open>g_hwnd\<close>, \<open>g_installed\<close> and \<open>g_aspect\<close>.\<close>

record lock_state =
  g_hwnd :: HWND
  g_installed :: bool
  g_aspect :: float

definition initial_state :: lock_state where
  "initial_state = \<lparr>g_hwnd = 0, g_installed = False, g_aspect = fdiv (Finite 9) (Finite 16)\<rparr>"

definition kSubclassId :: nat where
  "kSubclassId = 0xBADC0DE1"

text \<open>
  What the program observes of the window system: the identifier of the current process,
  the top-level windows in the order in which \<open>EnumWindows\<close> reports them (with the
  answers of \<open>GetWindowThreadProcessId\<close>, \<open>IsWindowVisible\<close> and
  \<open>GetWindow(_, GW_OWNER)\<close>), whether \<open>SetWindowSubclass\<close> is going to accept a
  request, and the subclass callbacks attached so far, each named by its window and its
  identifier.
\<close>

record window =
  handle :: HWND
  pid :: nat
  visible :: bool
  owner :: HWND

record os =
  current_pid :: nat
  windows :: "window list"
  attach_accepted :: bool
  subclasses :: "(HWND \<times> nat) set"

text \<open>
  The callback given to \<open>EnumWindows\<close> returns \<open>TRUE\<close> (continue) for a window of
  another process, an invisible window or an owned window, and stores the handle and returns
  \<open>FALSE\<close> (stop) for the first other window.
\<close>

fun EnumWindows_callback :: "nat \<Rightarrow> window list \<Rightarrow> HWND" where
  "EnumWindows_callback p [] = 0"
| "EnumWindows_callback p (x # xs) =
     (if pid x \<noteq> p then EnumWindows_callback p xs
      else if \<not> visible x then EnumWindows_callback p xs
      else if owner x \<noteq> 0 then EnumWindows_callback p xs
      else handle x)"

definition FindMainWindowForCurrentProcess :: "os \<Rightarrow> HWND" where
  "FindMainWindowForCurrentProcess e = EnumWindows_callback (current_pid e) (windows e)"

text \<open>
  \<open>SetWindowSubclass\<close> and \<open>RemoveWindowSubclass\<close> of the common controls library:
  a request for a window that does not exist, or one that the system does not accept, fails
  and changes nothing; attaching a callback that is already attached under the same
  identifier does not add a second one.
\<close>

definition SetWindowSubclass :: "os \<Rightarrow> HWND \<Rightarrow> nat \<Rightarrow> bool \<times> os" where
  "SetWindowSubclass e h ident =
     (if h \<in> handle ` set (windows e) \<and> attach_accepted e
      then (True, e\<lparr>subclasses := insert (h, ident) (subclasses e)\<rparr>)
      else (False, e))"

definition RemoveWindowSubclass :: "os \<Rightarrow> HWND \<Rightarrow> nat \<Rightarrow> os" where
  "RemoveWindowSubclass e h ident = e\<lparr>subclasses := subclasses e - {(h, ident)}\<rparr>"

section \<open>The aspect correction\<close>

record RECT =
  left :: LONG
  top_edge :: LONG
  right :: LONG
  bottom :: LONG

text \<open>
  The values of the \<open>WMSZ_*\<close> edge identifiers and of \<open>WM_SIZING\<close> in \<open>winuser.h\<close>.
  Messages, \<open>WPARAM\<close> values and subclass identifiers are unsigned and only ever compared
  with constants: they are natural numbers.
\<close>

definition WMSZ_LEFT :: nat where "WMSZ_LEFT = 1"
definition WMSZ_RIGHT :: nat where "WMSZ_RIGHT = 2"
definition WMSZ_TOP :: nat where "WMSZ_TOP = 3"
definition WMSZ_TOPLEFT :: nat where "WMSZ_TOPLEFT = 4"
definition WMSZ_TOPRIGHT :: nat where "WMSZ_TOPRIGHT = 5"
definition WMSZ_BOTTOM :: nat where "WMSZ_BOTTOM = 6"
definition WMSZ_BOTTOMLEFT :: nat where "WMSZ_BOTTOMLEFT = 7"
definition WMSZ_BOTTOMRIGHT :: nat where "WMSZ_BOTTOMRIGHT = 8"
definition WM_SIZING :: nat where "WM_SIZING = 0x0214"

text \<open>
  The two helper lambdas of \<open>ApplyAspect\<close>; they capture \<open>g_aspect\<close> and the current
  height \<open>h\<close>, respectively width \<open>w\<close>.
\<close>

definition setHeightFromWidth :: "(float \<Rightarrow> LONG) \<Rightarrow> float \<Rightarrow> LONG \<Rightarrow> LONG \<Rightarrow> LONG" where
  "setHeightFromWidth unspec g h newW =
     (let newH = RoundToInt unspec (fdiv (int_to_float newW) g)
      in if 0 <s newH then newH else h)"

definition setWidthFromHeight :: "(float \<Rightarrow> LONG) \<Rightarrow> float \<Rightarrow> LONG \<Rightarrow> LONG \<Rightarrow> LONG" where
  "setWidthFromHeight unspec g w newH =
     (let newW = RoundToInt unspec (fmul (int_to_float newH) g)
      in if 0 <s newW then newW else w)"

text \<open>The corner case of the \<open>switch\<close>: which dimension drives.\<close>

definition driveByWidth :: "float \<Rightarrow> LONG \<Rightarrow> LONG \<Rightarrow> bool" where
  "driveByWidth g w h =
     (let idealHFromW = fdiv (int_to_float w) g;
          idealWFromH = fmul (int_to_float h) g;
          errH = fabs (fsub idealHFromW (int_to_float h));
          errW = fabs (fsub idealWFromH (int_to_float w))
      in flt errH errW)"

text \<open>
  \<open>ApplyAspect\<close> on a non-null pointer: the rectangle it leaves behind.  \<open>s\<close> is the
  process-wide state, of which it reads \<open>g_aspect\<close>.
\<close>

definition ApplyAspect_rect :: "(float \<Rightarrow> LONG) \<Rightarrow> lock_state \<Rightarrow> RECT \<Rightarrow> nat \<Rightarrow> RECT" where
  "ApplyAspect_rect unspec s r edge =
     (if fle (g_aspect s) (Finite 0) then r
      else let w = right r - left r; h = bottom r - top_edge r
      in if w \<le>s 0 \<or> h \<le>s 0 then r
      else if edge = WMSZ_TOP \<or> edge = WMSZ_BOTTOM then
        (let newH = h; newW = setWidthFromHeight unspec (g_aspect s) w newH
         in r\<lparr>right := left r + newW\<rparr>)
      else if edge = WMSZ_LEFT \<or> edge = WMSZ_RIGHT then
        (let newW = w; newH = setHeightFromWidth unspec (g_aspect s) h newW
         in r\<lparr>bottom := top_edge r + newH\<rparr>)
      else if edge = WMSZ_TOPLEFT \<or> edge = WMSZ_TOPRIGHT
              \<or> edge = WMSZ_BOTTOMLEFT \<or> edge = WMSZ_BOTTOMRIGHT then
        (if driveByWidth (g_aspect s) w h then
           (let newH = setHeightFromWidth unspec (g_aspect s) h w
            in if edge = WMSZ_TOPLEFT \<or> edge = WMSZ_TOPRIGHT
               then r\<lparr>top_edge := bottom r - newH\<rparr>
               else r\<lparr>bottom := top_edge r + newH\<rparr>)
         else
           (let newW = setWidthFromHeight unspec (g_aspect s) w h
            in if edge = WMSZ_TOPLEFT \<or> edge = WMSZ_BOTTOMLEFT
               then r\<lparr>left := right r - newW\<rparr>
               else r\<lparr>right := left r + newW\<rparr>))
      else r)"

text \<open>\<open>ApplyAspect\<close> itself takes a pointer; \<open>None\<close> is the null pointer.\<close>

definition ApplyAspect :: "(float \<Rightarrow> LONG) \<Rightarrow> lock_state \<Rightarrow> RECT option \<Rightarrow> nat \<Rightarrow> RECT option" where
  "ApplyAspect unspec s r edge =
     (case r of None \<Rightarrow> None | Some rc \<Rightarrow> Some (ApplyAspect_rect unspec s rc edge))"

text \<open>
  The subclass callback: it answers \<open>TRUE\<close> to \<open>WM_SIZING\<close> after correcting the
  rectangle that \<open>lParam\<close> points to, and passes everything else on.
\<close>

datatype lresult = ReturnedTRUE | DefSubclassProc

definition SubclassProc ::
  "(float \<Rightarrow> LONG) \<Rightarrow> lock_state \<Rightarrow> nat \<Rightarrow> nat \<Rightarrow> RECT option \<Rightarrow> nat \<Rightarrow> lresult \<times> RECT option" where
  "SubclassProc unspec s msg wParam lParam uIdSubclass =
     (if uIdSubclass \<noteq> kSubclassId then (DefSubclassProc, lParam)
      else if msg = WM_SIZING then (ReturnedTRUE, ApplyAspect unspec s lParam wParam)
      else (DefSubclassProc, lParam))"

section \<open>The exported functions\<close>

text \<open>
  \<open>InitCommonControlsEx\<close> has no effect on the state that is modelled here and is left
  out.
\<close>

definition UnityAspectLock_Install ::
  "float \<Rightarrow> float \<Rightarrow> lock_state \<Rightarrow> os \<Rightarrow> int \<times> lock_state \<times> os" where
  "UnityAspectLock_Install aspectWidth aspectHeight s e =
     (if g_installed s then (1, s, e)
      else if fle aspectWidth (Finite 0) \<or> fle aspectHeight (Finite 0) then (0, s, e)
      else let s1 = s\<lparr>g_aspect := fdiv aspectWidth aspectHeight\<rparr>;
               s2 = s1\<lparr>g_hwnd := FindMainWindowForCurrentProcess e\<rparr>
           in if g_hwnd s2 = 0 then (0, s2, e)
              else case SetWindowSubclass e (g_hwnd s2) kSubclassId of
                     (ok, e') \<Rightarrow>
                       if \<not> ok then (0, s2, e')
                       else (1, s2\<lparr>g_installed := True\<rparr>, e'))"

definition UnityAspectLock_Uninstall :: "lock_state \<Rightarrow> os \<Rightarrow> lock_state \<times> os" where
  "UnityAspectLock_Uninstall s e =
     (if \<not> g_installed s then (s, e)
      else let e' = (if g_hwnd s \<noteq> 0 then RemoveWindowSubclass e (g_hwnd s) kSubclassId else e)
           in (s\<lparr>g_hwnd := 0, g_installed := False\<rparr>, e'))"

definition UnityAspectLock_IsInstalled :: "lock_state \<Rightarrow> int" where
  "UnityAspectLock_IsInstalled s = (if g_installed s then 1 else 0)"

section \<open>Notions used to state the properties\<close>

text \<open>The four corner labels of the \<open>switch\<close> in \<open>ApplyAspect\<close>.\<close>

definition is_corner :: "nat \<Rightarrow> bool" where
  "is_corner edge \<longleftrightarrow> edge = WMSZ_TOPLEFT \<or> edge = WMSZ_TOPRIGHT
      \<or> edge = WMSZ_BOTTOMLEFT \<or> edge = WMSZ_BOTTOMRIGHT"

text \<open>
  The number that \<open>ApplyAspect\<close> passes to \<open>RoundToInt\<close> for a drag edge, before the
  helper lambdas compare it with \<open>0\<close>: a width for \<open>WMSZ_TOP\<close> and \<open>WMSZ_BOTTOM\<close>, a
  height for \<open>WMSZ_LEFT\<close> and \<open>WMSZ_RIGHT\<close>, and for a corner the one that
  \<open>driveByWidth\<close> selects.
\<close>

definition derived_dimension :: "(float \<Rightarrow> LONG) \<Rightarrow> float \<Rightarrow> LONG \<Rightarrow> LONG \<Rightarrow> nat \<Rightarrow> LONG" where
  "derived_dimension unspec g w h edge =
     (if edge = WMSZ_TOP \<or> edge = WMSZ_BOTTOM then RoundToInt unspec (fmul (int_to_float h) g)
      else if edge = WMSZ_LEFT \<or> edge = WMSZ_RIGHT then RoundToInt unspec (fdiv (int_to_float w) g)
      else if driveByWidth g w h then RoundToInt unspec (fdiv (int_to_float w) g)
      else RoundToInt unspec (fmul (int_to_float h) g))"

text \<open>The eight values that \<open>WM_SIZING\<close> passes in \<open>wParam\<close>.\<close>

definition is_drag_edge :: "nat \<Rightarrow> bool" where
  "is_drag_edge edge \<longleftrightarrow> edge = WMSZ_LEFT \<or> edge = WMSZ_RIGHT \<or> edge = WMSZ_TOP
      \<or> edge = WMSZ_BOTTOM \<or> is_corner edge"

text \<open>Width and height of a rectangle, as \<open>ApplyAspect\<close> computes them, read as signed.\<close>

definition rect_width :: "RECT \<Rightarrow> int" where
  "rect_width r = sint (right r - left r)"

definition rect_height :: "RECT \<Rightarrow> int" where
  "rect_height r = sint (bottom r - top_edge r)"

text \<open>
  A width and a height agree with a target ratio (width over height) up to one pixel: the
  width is within one pixel of the height times the ratio, or the height is within one
  pixel of the width divided by the ratio.
\<close>

definition agrees_within_one_pixel :: "rat \<Rightarrow> int \<Rightarrow> int \<Rightarrow> bool" where
  "agrees_within_one_pixel \<rho> W H \<longleftrightarrow>
     \<bar>of_int W - of_int H * \<rho>\<bar> \<le> 1 \<or> \<bar>of_int H - of_int W / \<rho>\<bar> \<le> 1"

text \<open>The callbacks of this module that are attached to some window.\<close>

definition own_attachments :: "os \<Rightarrow> (HWND \<times> nat) set" where
  "own_attachments e = {p \<in> subclasses e. snd p = kSubclassId}"

text \<open>
  A window system to run the exported functions in: the process \<open>7\<close> has an invisible
  window, an owned window and a visible top-level window with handle \<open>6\<close>.
\<close>

definition example_os :: os where
  "example_os =
     \<lparr>current_pid = 7,
      windows = [\<lparr>handle = 3, pid = 2, visible = True, owner = 0\<rparr>,
                 \<lparr>handle = 4, pid = 7, visible = False, owner = 0\<rparr>,
                 \<lparr>handle = 5, pid = 7, visible = True, owner = 4\<rparr>,
                 \<lparr>handle = 6, pid = 7, visible = True, owner = 0\<rparr>],
      attach_accepted = True,
      subclasses = {}\<rparr>"

text \<open>The state in which \<open>UnityAspectLock_Install(16, 9)\<close> leaves the globals there.\<close>

definition locked_16_9 :: lock_state where
  "locked_16_9 = \<lparr>g_hwnd = 6, g_installed = True, g_aspect = fdiv (Finite 16) (Finite 9)\<rparr>"

text \<open>The same with the portrait ratio \<open>9 : 16\<close>.\<close>

definition locked_9_16 :: lock_state where
  "locked_9_16 = \<lparr>g_hwnd = 6, g_installed = True, g_aspect = fdiv (Finite 9) (Finite 16)\<rparr>"

section \<open>Rounding errors of single precision\<close>

text \<open>The exponent that \<open>flog2\<close> computes brackets its argument.\<close>

lemma bitlen_powi_bounds:
  assumes "0 < (x::int)"
  shows "(2::rat) powi (bitlen x - 1) \<le> of_int x" "of_int x < (2::rat) powi (bitlen x)"
proof -
  from bitlen_bounds [OF assms]
  have lo: "2 ^ nat (bitlen x - 1) \<le> x" and hi: "x < 2 ^ nat (bitlen x)" by simp_all
  have pos: "0 < bitlen x"
  proof (rule ccontr)
    assume "\<not> 0 < bitlen x"
    then have "nat (bitlen x) = 0" by simp
    with hi assms show False by simp
  qed
  have "(of_int (2 ^ nat (bitlen x - 1)) :: rat) \<le> of_int x"
    using lo by (simp only: of_int_le_iff)
  then show "(2::rat) powi (bitlen x - 1) \<le> of_int x"
    using pos by (simp add: power_int_def)
  have "(of_int x :: rat) < of_int (2 ^ nat (bitlen x))"
    using hi by (simp only: of_int_less_iff)
  then show "of_int x < (2::rat) powi (bitlen x)"
    using pos by (simp add: power_int_def)
qed

lemma flog2_bounds:
  assumes "0 < a"
  shows "2 powi (flog2 a) \<le> a" "a < 2 powi (flog2 a + 1)"
proof -
  obtain n d where q: "quotient_of a = (n, d)" by (cases "quotient_of a")
  then have a: "a = of_int n / of_int d" and d: "0 < d"
    by (simp_all add: quotient_of_div quotient_of_denom_pos)
  have n: "0 < n" using assms d unfolding a by (simp add: zero_less_divide_iff)
  define k where "k = bitlen n - bitlen d"
  have dr: "(0::rat) < of_int d" using d by simp
  have "a < 2 powi (bitlen n) / of_int d"
    unfolding a using bitlen_powi_bounds(2) [OF n] dr by (simp add: divide_strict_right_mono)
  also have "\<dots> \<le> 2 powi (bitlen n) / 2 powi (bitlen d - 1)"
  proof (rule divide_left_mono)
    show "2 powi (bitlen d - 1) \<le> rat_of_int d" by (rule bitlen_powi_bounds(1) [OF d])
    show "(0::rat) \<le> 2 powi bitlen n" by (simp add: zero_less_power_int less_imp_le)
    show "0 < rat_of_int d * 2 powi (bitlen d - 1)"
      by (rule mult_pos_pos [OF dr]) (simp add: zero_less_power_int)
  qed
  also have "\<dots> = 2 powi (k + 1)"
    unfolding k_def by (simp add: power_int_diff [symmetric] algebra_simps)
  finally have up: "a < 2 powi (k + 1)" .
  have "2 powi (k - 1) = 2 powi (bitlen n - 1) / (2::rat) powi (bitlen d)"
    unfolding k_def by (simp add: power_int_diff [symmetric] algebra_simps)
  also have "\<dots> \<le> of_int n / 2 powi (bitlen d)"
    using bitlen_powi_bounds(1) [OF n] by (simp add: divide_right_mono)
  also have "\<dots> < of_int n / of_int d"
    using bitlen_powi_bounds(2) [OF d] n dr by (intro divide_strict_left_mono) simp_all
  finally have lo: "2 powi (k - 1) < a" unfolding a .
  have f: "flog2 a = (if 2 powi k \<le> a then k else k - 1)"
    unfolding flog2_def q k_def by (simp add: Let_def)
  show "2 powi (flog2 a) \<le> a"
    using lo unfolding f by simp
  show "a < 2 powi (flog2 a + 1)"
    using up unfolding f by (simp add: not_le)
qed

lemma round_half_even_err: "\<bar>of_int (round_half_even x) - x\<bar> \<le> 1 / 2"
proof -
  have "of_int \<lfloor>x\<rfloor> \<le> x" "x < of_int \<lfloor>x\<rfloor> + 1" by linarith+
  then show ?thesis
    unfolding round_half_even_def Let_def by (auto simp: abs_le_iff)
qed

lemma round_half_away_err: "\<bar>of_int (round_half_away x) - x\<bar> \<le> 1 / 2"
proof -
  show ?thesis
  proof (cases "0 \<le> x")
    case True
    have "of_int \<lfloor>x + 1 / 2\<rfloor> \<le> x + 1 / 2" "x + 1 / 2 < of_int \<lfloor>x + 1 / 2\<rfloor> + 1"
      by linarith+
    then have "\<bar>of_int \<lfloor>x + 1 / 2\<rfloor> - x\<bar> \<le> 1 / 2" by linarith
    with True show ?thesis by (simp only: round_half_away_def if_True)
  next
    case False
    have "of_int \<lfloor>- x + 1 / 2\<rfloor> \<le> - x + 1 / 2" "- x + 1 / 2 < of_int \<lfloor>- x + 1 / 2\<rfloor> + 1"
      by linarith+
    then have "\<bar>of_int (- \<lfloor>- x + 1 / 2\<rfloor>) - x\<bar> \<le> 1 / 2" by (simp only: of_int_minus)
    with False show ?thesis by (simp only: round_half_away_def if_False)
  qed
qed


text \<open>
  In the range of the normal numbers, rounding to single precision changes a value by at
  most the fraction \<open>2\<^sup>-\<^sup>2\<^sup>4\<close> of it, and gives a finite number.
\<close>

lemma round_f32_normal:
  assumes lo: "2 powi (- 126) \<le> q" and hi: "q \<le> 2 ^ 127"
  shows "\<exists>q'. round_f32 q = Finite q' \<and> q * (1 - 1 / 2 ^ 24) \<le> q' \<and> q' \<le> q * (1 + 1 / 2 ^ 24)"
proof -
  have qpos: "0 < q" using lo zero_less_power_int [of "2::rat" "- 126"] by linarith
  define e where "e = flog2 q"
  define u where "u = (2::rat) powi (e - 23)"
  define m where "m = round_half_even (q / u)"
  define r where "r = of_int m * u"
  have e_bounds: "2 powi e \<le> q" "q < 2 powi (e + 1)"
    unfolding e_def using flog2_bounds [OF qpos] by simp_all
  have "(2::rat) powi (- 126) < 2 powi (e + 1)" using lo e_bounds(2) by linarith
  then have "- 126 < e + 1"
    using power_int_increasing [of "e + 1" "- 126" "2::rat"] by (cases "e + 1 \<le> - 126") simp_all
  then have emax: "max e (- 126) = e" by simp
  have upos: "0 < u" unfolding u_def by (simp add: zero_less_power_int)
  have u_eq: "u = 2 powi e / 2 ^ 23"
    unfolding u_def by (simp add: power_int_diff)
  have u_le: "u \<le> q / 2 ^ 23"
    unfolding u_eq using e_bounds(1) by (simp add: divide_right_mono)
  have "\<bar>of_int m - q / u\<bar> \<le> 1 / 2"
    unfolding m_def by (rule round_half_even_err)
  then have "\<bar>of_int m - q / u\<bar> * u \<le> 1 / 2 * u"
    using upos by (simp add: mult_right_mono)
  moreover have "\<bar>of_int m - q / u\<bar> * u = \<bar>r - q\<bar>"
  proof -
    have "\<bar>of_int m - q / u\<bar> * u = \<bar>of_int m - q / u\<bar> * \<bar>u\<bar>" using upos by simp
    also have "\<dots> = \<bar>(of_int m - q / u) * u\<bar>" by (simp only: abs_mult)
    also have "(of_int m - q / u) * u = r - q"
      using upos unfolding r_def by (simp add: left_diff_distrib)
    finally show ?thesis .
  qed
  ultimately have err: "\<bar>r - q\<bar> \<le> u / 2" by simp
  then have err': "\<bar>r - q\<bar> \<le> q / 2 ^ 24" using u_le by simp
  have "r \<le> q + q / 2 ^ 24" using err' by linarith
  also have "\<dots> \<le> 2 ^ 127 + 2 ^ 127 / 2 ^ 24" using hi by (intro add_mono divide_right_mono) simp_all
  also have "\<dots> < 2 ^ 128" by simp
  finally have noov: "\<not> 2 ^ 128 \<le> r" by simp
  have "round_f32 q = Finite r"
    using qpos noov unfolding round_f32_def Let_def
    by (simp add: emax e_def [symmetric] u_def [symmetric] m_def [symmetric] r_def [symmetric])
  moreover have "q * (1 - 1 / 2 ^ 24) \<le> r" "r \<le> q * (1 + 1 / 2 ^ 24)"
  proof -
    define t where "t = q / 2 ^ 24"
    have "r - q \<le> t \<and> - (r - q) \<le> t"
      using err' unfolding t_def by (simp only: abs_le_iff)
    then have "q - t \<le> r" "r \<le> q + t" by linarith+
    moreover have "q * (1 - 1 / 2 ^ 24) = q - t" "q * (1 + 1 / 2 ^ 24) = q + t"
      unfolding t_def by (simp_all add: algebra_simps)
    ultimately show "q * (1 - 1 / 2 ^ 24) \<le> r" "r \<le> q * (1 + 1 / 2 ^ 24)"
      by simp_all
  qed
  ultimately show ?thesis by blast
qed

text \<open>
  A value that is computed from an ideal \<open>P\<close> of at most \<open>2\<^sup>2\<^sup>0\<close> with a few roundings,
  each of relative error \<open>2\<^sup>-\<^sup>2\<^sup>4\<close>, is within a quarter of \<open>P\<close>.
\<close>

lemma roundings_upper:
  fixes P p y K :: rat
  assumes "0 \<le> P" "P \<le> 2 ^ 20" "p \<le> P * K"
    "K * (1 + 1 / 2 ^ 24) \<le> 1 + 1 / 2 ^ 22" "y \<le> p * (1 + 1 / 2 ^ 24)"
  shows "y \<le> P + 1 / 4"
proof -
  have "p * (1 + 1 / 2 ^ 24) \<le> (P * K) * (1 + 1 / 2 ^ 24)"
    using assms(3) by (rule mult_right_mono) simp
  also have "\<dots> = P * (K * (1 + 1 / 2 ^ 24))"
    by (simp only: mult.assoc)
  also have "\<dots> \<le> P * (1 + 1 / 2 ^ 22)"
    using assms(4) assms(1) by (rule mult_left_mono)
  also have "\<dots> = P + P / 2 ^ 22" by (simp add: algebra_simps)
  also have "\<dots> \<le> P + 2 ^ 20 / 2 ^ 22"
    using assms(2) by (intro add_left_mono divide_right_mono) simp_all
  also have "\<dots> = P + 1 / 4" by simp
  finally show ?thesis using assms(5) by (rule order_trans [rotated])
qed

lemma roundings_lower:
  fixes P p y K :: rat
  assumes "0 \<le> P" "P \<le> 2 ^ 20" "P * K \<le> p"
    "1 - 1 / 2 ^ 22 \<le> K * (1 - 1 / 2 ^ 24)" "p * (1 - 1 / 2 ^ 24) \<le> y"
  shows "P - 1 / 4 \<le> y"
proof -
  have "P - 1 / 4 = P - 2 ^ 20 / 2 ^ 22" by simp
  also have "\<dots> \<le> P - P / 2 ^ 22"
    using assms(2) by (intro diff_left_mono divide_right_mono) simp_all
  also have "\<dots> = P * (1 - 1 / 2 ^ 22)" by (simp add: algebra_simps)
  also have "\<dots> \<le> P * (K * (1 - 1 / 2 ^ 24))"
    using assms(4) assms(1) by (rule mult_left_mono)
  also have "\<dots> = (P * K) * (1 - 1 / 2 ^ 24)"
    by (simp only: mult.assoc)
  also have "\<dots> \<le> p * (1 - 1 / 2 ^ 24)"
    using assms(3) by (rule mult_right_mono) simp
  finally show ?thesis using assms(5) by (rule order_trans)
qed


lemma sint_word_of_int_in_range:
  "in_long_range n \<Longrightarrow> sint (word_of_int n :: LONG) = n"
  by (simp add: in_long_range_def sint_sbintrunc' signed_take_bit_int_eq_self)

lemma int_to_float_positive:
  assumes "0 <s n" and N: "N = sint n"
  shows "\<exists>x. int_to_float n = Finite x
           \<and> of_int N * (1 - 1 / 2 ^ 24) \<le> x \<and> x \<le> of_int N * (1 + 1 / 2 ^ 24)"
proof -
  have pos: "1 \<le> N" using assms by (simp add: word_sless_alt)
  have "N < 2 ^ 31" using sint_lt [of n] unfolding N by simp
  then have "N \<le> 2 ^ 127" by simp
  then have "(of_int N :: rat) \<le> of_int (2 ^ 127)" by (simp only: of_int_le_iff)
  then have hi: "(of_int N :: rat) \<le> 2 ^ 127" by simp
  have "(1::rat) \<le> of_int N" using pos by simp
  moreover have "(2::rat) powi (- 126) \<le> 1" by (simp add: power_int_def field_simps)
  ultimately have lo: "(2::rat) powi (- 126) \<le> of_int N" by linarith
  show ?thesis unfolding int_to_float_def N [symmetric] by (rule round_f32_normal [OF lo hi])
qed

text \<open>
  The width that \<open>ApplyAspect\<close> derives from a height, and the height that it derives
  from a width, against the ideal values for a ratio \<open>\<rho>\<close> of which \<open>g_aspect\<close> is the
  rounded value.
\<close>

lemma RoundToInt_close:
  fixes P y :: rat
  assumes "P - 1 / 4 \<le> y" "y \<le> P + 1 / 4" "0 \<le> P" "P \<le> 2 ^ 20"
  shows "\<exists>N. RoundToInt unspec (Finite y) = word_of_int N \<and> in_long_range N
             \<and> \<bar>of_int N - P\<bar> \<le> 1"
proof -
  define N where "N = round_half_away y"
  have "\<bar>of_int N - y\<bar> \<le> 1 / 2" unfolding N_def by (rule round_half_away_err)
  then have n: "of_int N \<le> y + 1 / 2" "y - 1 / 2 \<le> of_int N" by linarith+
  have close: "\<bar>of_int N - P\<bar> \<le> 1" using n assms(1,2) by linarith
  have P': "P \<le> 1048576" using assms(4) by simp
  have "(of_int N :: rat) \<le> 1048577" "(- 1 :: rat) \<le> of_int N"
    using n assms(1-3) P' by linarith+
  then have "N \<le> 1048577" "- 1 \<le> N" by simp_all
  then have range: "in_long_range N" by (simp add: in_long_range_def)
  then have "RoundToInt unspec (Finite y) = word_of_int N"
    by (simp add: RoundToInt_def N_def)
  with range close show ?thesis by blast
qed

lemma derive_width_close:
  fixes \<rho> g' :: rat
  assumes h: "0 <s h" and H: "H = sint h"
    and g: "\<rho> * (1 - 1 / 2 ^ 24) \<le> g'" "g' \<le> \<rho> * (1 + 1 / 2 ^ 24)"
    and \<rho>: "1 / 2 ^ 20 \<le> \<rho>" and P: "of_int H * \<rho> \<le> 2 ^ 20"
  shows "\<exists>N. RoundToInt unspec (fmul (int_to_float h) (Finite g')) = word_of_int N
             \<and> in_long_range N \<and> \<bar>of_int N - of_int H * \<rho>\<bar> \<le> 1"
proof -
  from int_to_float_positive [OF h H] obtain x where
    x: "int_to_float h = Finite x" "of_int H * (1 - 1 / 2 ^ 24) \<le> x"
       "x \<le> of_int H * (1 + 1 / 2 ^ 24)"
    by blast
  have "1 \<le> H" using h unfolding H by (simp add: word_sless_alt)
  then have H1: "(1::rat) \<le> of_int H" by simp
  have rpos: "0 < \<rho>" using \<rho> by (rule less_le_trans [rotated]) simp
  define P where "P = of_int H * \<rho>"
  have Ppos: "0 \<le> P" unfolding P_def using H1 rpos by simp
  have "\<rho> = 1 * \<rho>" by simp
  also have "\<dots> \<le> of_int H * \<rho>" using H1 rpos by (intro mult_right_mono) simp_all
  finally have Plo: "1 / 2 ^ 20 \<le> P" unfolding P_def using \<rho> by linarith
  have Phi: "P \<le> 2 ^ 20" unfolding P_def by (rule assms)
  have "0 \<le> \<rho> * (1 - 1 / 2 ^ 24)" using rpos by simp
  then have g0: "0 \<le> g'" using g(1) by (rule order_trans)
  have up: "x * g' \<le> P * ((1 + 1 / 2 ^ 24) * (1 + 1 / 2 ^ 24))"
  proof -
    have "x * g' \<le> (of_int H * (1 + 1 / 2 ^ 24)) * (\<rho> * (1 + 1 / 2 ^ 24))"
      using x(3) g(2) H1 g0 by (intro mult_mono) simp_all
    then show ?thesis unfolding P_def by (simp only: mult_ac)
  qed
  have low: "P * ((1 - 1 / 2 ^ 24) * (1 - 1 / 2 ^ 24)) \<le> x * g'"
  proof -
    have "(of_int H * (1 - 1 / 2 ^ 24)) * (\<rho> * (1 - 1 / 2 ^ 24)) \<le> x * g'"
      using x(2) g(1) H1 rpos by (intro mult_mono) simp_all
    then show ?thesis unfolding P_def by (simp only: mult_ac)
  qed
  have "(2::rat) powi (- 126) \<le> 1 / 2 ^ 20 * ((1 - 1 / 2 ^ 24) * (1 - 1 / 2 ^ 24))"
    by (simp add: power_int_def field_simps)
  also have "\<dots> \<le> P * ((1 - 1 / 2 ^ 24) * (1 - 1 / 2 ^ 24))"
    using Plo by (rule mult_right_mono) simp
  finally have nlo: "(2::rat) powi (- 126) \<le> x * g'" using low by linarith
  have "P * ((1 + 1 / 2 ^ 24) * (1 + 1 / 2 ^ 24)) \<le> 2 ^ 20 * ((1 + 1 / 2 ^ 24) * (1 + 1 / 2 ^ 24))"
    using Phi by (rule mult_right_mono) simp
  also have "\<dots> \<le> 2 ^ 127" by simp
  finally have nhi: "x * g' \<le> 2 ^ 127" using up by linarith
  from round_f32_normal [OF nlo nhi] obtain y where
    y: "round_f32 (x * g') = Finite y" "x * g' * (1 - 1 / 2 ^ 24) \<le> y"
       "y \<le> x * g' * (1 + 1 / 2 ^ 24)"
    by blast
  have "y \<le> P + 1 / 4"
    by (rule roundings_upper [OF Ppos Phi up _ y(3)]) simp
  moreover have "P - 1 / 4 \<le> y"
    by (rule roundings_lower [OF Ppos Phi low _ y(2)]) simp
  ultimately have "\<exists>N. RoundToInt unspec (Finite y) = word_of_int N \<and> in_long_range N
             \<and> \<bar>of_int N - P\<bar> \<le> 1"
    using Ppos Phi by (intro RoundToInt_close)
  then show ?thesis unfolding P_def x(1) by (simp add: y(1))
qed


lemma derive_height_close:
  fixes \<rho> g' :: rat
  assumes w: "0 <s w" and W: "W = sint w"
    and g: "\<rho> * (1 - 1 / 2 ^ 24) \<le> g'" "g' \<le> \<rho> * (1 + 1 / 2 ^ 24)"
    and \<rho>: "0 < \<rho>" "\<rho> \<le> 2 ^ 20" and Q: "of_int W / \<rho> \<le> 2 ^ 20"
  shows "\<exists>N. RoundToInt unspec (fdiv (int_to_float w) (Finite g')) = word_of_int N
             \<and> in_long_range N \<and> \<bar>of_int N - of_int W / \<rho>\<bar> \<le> 1"
proof -
  from int_to_float_positive [OF w W] obtain x where
    x: "int_to_float w = Finite x" "of_int W * (1 - 1 / 2 ^ 24) \<le> x"
       "x \<le> of_int W * (1 + 1 / 2 ^ 24)"
    by blast
  have "1 \<le> W" using w unfolding W by (simp add: word_sless_alt)
  then have W1: "(1::rat) \<le> of_int W" by simp
  define Q where "Q = of_int W / \<rho>"
  have Qpos: "0 \<le> Q" unfolding Q_def using W1 \<rho>(1) by simp
  have "1 / 2 ^ 20 \<le> 1 / \<rho>"
    using \<rho> by (intro divide_left_mono) simp_all
  also have "\<dots> \<le> of_int W / \<rho>"
    using W1 \<rho>(1) by (intro divide_right_mono) simp_all
  finally have Qlo: "1 / 2 ^ 20 \<le> Q" unfolding Q_def .
  have Qhi: "Q \<le> 2 ^ 20" unfolding Q_def by (rule assms)
  have lpos: "0 < \<rho> * (1 - 1 / 2 ^ 24)" using \<rho>(1) by simp
  then have gpos: "0 < g'" using g(1) by (rule less_le_trans)
  have "(0::rat) \<le> of_int W * (1 - 1 / 2 ^ 24)" using W1 by simp
  then have x0: "0 \<le> x" using x(2) by (rule order_trans)
  have up: "x / g' \<le> Q * ((1 + 1 / 2 ^ 24) / (1 - 1 / 2 ^ 24))"
  proof -
    have "x / g' \<le> (of_int W * (1 + 1 / 2 ^ 24)) / (\<rho> * (1 - 1 / 2 ^ 24))"
      using x(3) g(1) lpos W1 by (intro frac_le) simp_all
    also have "\<dots> = Q * ((1 + 1 / 2 ^ 24) / (1 - 1 / 2 ^ 24))"
      unfolding Q_def by (simp only: times_divide_times_eq)
    finally show ?thesis .
  qed
  have low: "Q * ((1 - 1 / 2 ^ 24) / (1 + 1 / 2 ^ 24)) \<le> x / g'"
  proof -
    have "Q * ((1 - 1 / 2 ^ 24) / (1 + 1 / 2 ^ 24))
        = (of_int W * (1 - 1 / 2 ^ 24)) / (\<rho> * (1 + 1 / 2 ^ 24))"
      unfolding Q_def by (simp only: times_divide_times_eq)
    also have "\<dots> \<le> x / g'"
      using x(2) g(2) gpos x0 by (intro frac_le) simp_all
    finally show ?thesis .
  qed
  have "(2::rat) powi (- 126) \<le> 1 / 2 ^ 20 * ((1 - 1 / 2 ^ 24) / (1 + 1 / 2 ^ 24))"
    by (simp add: power_int_def field_simps)
  also have "\<dots> \<le> Q * ((1 - 1 / 2 ^ 24) / (1 + 1 / 2 ^ 24))"
    using Qlo by (rule mult_right_mono) simp
  finally have nlo: "(2::rat) powi (- 126) \<le> x / g'" using low by linarith
  have "Q * ((1 + 1 / 2 ^ 24) / (1 - 1 / 2 ^ 24)) \<le> 2 ^ 20 * ((1 + 1 / 2 ^ 24) / (1 - 1 / 2 ^ 24))"
    using Qhi by (rule mult_right_mono) simp
  also have "\<dots> \<le> 2 ^ 127" by simp
  finally have nhi: "x / g' \<le> 2 ^ 127" using up by linarith
  from round_f32_normal [OF nlo nhi] obtain y where
    y: "round_f32 (x / g') = Finite y" "x / g' * (1 - 1 / 2 ^ 24) \<le> y"
       "y \<le> x / g' * (1 + 1 / 2 ^ 24)"
    by blast
  have "y \<le> Q + 1 / 4"
    by (rule roundings_upper [OF Qpos Qhi up _ y(3)]) simp
  moreover have "Q - 1 / 4 \<le> y"
    by (rule roundings_lower [OF Qpos Qhi low _ y(2)]) simp
  ultimately have "\<exists>N. RoundToInt unspec (Finite y) = word_of_int N \<and> in_long_range N
             \<and> \<bar>of_int N - Q\<bar> \<le> 1"
    using Qpos Qhi by (intro RoundToInt_close)
  moreover have "fdiv (int_to_float w) (Finite g') = Finite y"
    using gpos unfolding x(1) by (simp add: y(1))
  ultimately show ?thesis unfolding Q_def by simp
qed

section \<open>Evaluating the model\<close>

lemma round_f32_16_9: "round_f32 (16 / 9) = Finite (14913081 / 8388608)"
  by code_simp

lemma round_f32_9_16: "round_f32 (9 / 16) = Finite (9 / 16)"
  by code_simp

lemma fdiv_16_9: "fdiv (Finite 16) (Finite 9) = Finite (14913081 / 8388608)"
  by (simp add: round_f32_16_9)

lemma fdiv_9_16: "fdiv (Finite 9) (Finite 16) = Finite (9 / 16)"
  by (simp add: round_f32_9_16)

lemma FindMainWindow_example: "FindMainWindowForCurrentProcess example_os = 6"
  by (simp add: FindMainWindowForCurrentProcess_def example_os_def)

section \<open>Properties of the exported functions\<close>

lemma Install_installed:
  "g_installed s \<Longrightarrow> UnityAspectLock_Install aspectWidth aspectHeight s e = (1, s, e)"
  by (simp only: UnityAspectLock_Install_def if_True)

lemma Install_invalid:
  "\<not> g_installed s \<Longrightarrow> fle aspectWidth (Finite 0) \<or> fle aspectHeight (Finite 0)
   \<Longrightarrow> UnityAspectLock_Install aspectWidth aspectHeight s e = (0, s, e)"
  by (simp only: UnityAspectLock_Install_def if_True if_False)

lemma EnumWindows_callback_found:
  "EnumWindows_callback p ws \<noteq> 0 \<Longrightarrow> EnumWindows_callback p ws \<in> handle ` set ws"
  by (induction ws) (auto split: if_splits)

lemma FindMainWindow_valid:
  "FindMainWindowForCurrentProcess e \<noteq> 0
   \<Longrightarrow> FindMainWindowForCurrentProcess e \<in> handle ` set (windows e)"
  unfolding FindMainWindowForCurrentProcess_def by (rule EnumWindows_callback_found)

lemma SetWindowSubclass_found:
  "FindMainWindowForCurrentProcess e \<noteq> 0 \<Longrightarrow>
   SetWindowSubclass e (FindMainWindowForCurrentProcess e) ident =
     (if attach_accepted e
      then (True, e\<lparr>subclasses := insert (FindMainWindowForCurrentProcess e, ident) (subclasses e)\<rparr>)
      else (False, e))"
  using FindMainWindow_valid [of e] by (simp add: SetWindowSubclass_def)

text \<open>The three ways out of an install that gets past the two guards.\<close>

lemma Install_fresh:
  assumes "\<not> g_installed s" "\<not> fle aspectWidth (Finite 0)" "\<not> fle aspectHeight (Finite 0)"
  shows "UnityAspectLock_Install aspectWidth aspectHeight s e =
     (if FindMainWindowForCurrentProcess e = 0
      then (0, s\<lparr>g_aspect := fdiv aspectWidth aspectHeight, g_hwnd := 0\<rparr>, e)
      else if \<not> attach_accepted e
      then (0, s\<lparr>g_aspect := fdiv aspectWidth aspectHeight,
                g_hwnd := FindMainWindowForCurrentProcess e\<rparr>, e)
      else (1, s\<lparr>g_aspect := fdiv aspectWidth aspectHeight,
                g_hwnd := FindMainWindowForCurrentProcess e, g_installed := True\<rparr>,
            e\<lparr>subclasses := insert (FindMainWindowForCurrentProcess e, kSubclassId)
                               (subclasses e)\<rparr>))"
proof (cases "FindMainWindowForCurrentProcess e = 0")
  case True
  with assms show ?thesis by (simp add: UnityAspectLock_Install_def)
next
  case False
  with assms show ?thesis
    by (simp add: UnityAspectLock_Install_def SetWindowSubclass_found)
qed

lemma flt_zero_not_fle: "flt (Finite 0) x \<Longrightarrow> \<not> fle x (Finite 0)"
  by (cases x) simp_all

lemma Install_example:
  "UnityAspectLock_Install (Finite 16) (Finite 9) initial_state example_os =
     (1, locked_16_9, example_os\<lparr>subclasses := {(6, kSubclassId)}\<rparr>)"
proof -
  have "\<not> g_installed initial_state" "\<not> fle (Finite 16) (Finite 0)" "\<not> fle (Finite 9) (Finite 0)"
    by (simp_all add: initial_state_def)
  from Install_fresh [OF this, of example_os] show ?thesis
    by (simp add: FindMainWindow_example initial_state_def locked_16_9_def)
       (simp add: example_os_def)
qed

lemma Install_stores_ratio:
  assumes "\<not> g_installed s"
    and "UnityAspectLock_Install aspectWidth aspectHeight s e = (1, s', e')"
  shows "g_aspect s' = fdiv aspectWidth aspectHeight"
proof (cases "fle aspectWidth (Finite 0) \<or> fle aspectHeight (Finite 0)")
  case True
  with assms Install_invalid [of s aspectWidth aspectHeight e] show ?thesis by simp
next
  case False
  then have v: "\<not> fle aspectWidth (Finite 0)" "\<not> fle aspectHeight (Finite 0)" by simp_all
  from assms(2) show ?thesis
    unfolding Install_fresh [OF assms(1) v] by (auto split: if_splits)
qed

text \<open>
  C2, as the code has it.  For every call of \<open>UnityAspectLock_Install\<close> with
  \<open>aspectWidth <= 0\<close> or \<open>aspectHeight <= 0\<close>, the globals and the window system are
  left exactly as they were; the call returns \<open>0\<close> when the lock is not installed, and
  \<open>1\<close> when it is, because the test of \<open>g_installed\<close> comes first.
\<close>

theorem Install_nonpositive_leaves_state:
  assumes "fle aspectWidth (Finite 0) \<or> fle aspectHeight (Finite 0)"
  shows "UnityAspectLock_Install aspectWidth aspectHeight s e =
           ((if g_installed s then 1 else 0), s, e)"
proof (cases "g_installed s")
  case True
  then show ?thesis by (simp add: Install_installed)
next
  case False
  with assms show ?thesis by (simp add: Install_invalid)
qed

theorem Install_nonpositive_leaves_state_witness:
  "fle (Finite (- 4)) (Finite 0)
   \<and> UnityAspectLock_Install (Finite (- 4)) (Finite 3) initial_state example_os =
       (0, initial_state, example_os)
   \<and> UnityAspectLock_Install (Finite (- 4)) (Finite 3) locked_16_9 example_os =
       (1, locked_16_9, example_os)"
proof -
  have h: "fle (Finite (- 4)) (Finite 0) \<or> fle (Finite 3) (Finite 0)" by simp
  show ?thesis
    using Install_nonpositive_leaves_state [OF h, of initial_state example_os]
      Install_nonpositive_leaves_state [OF h, of locked_16_9 example_os]
    by (simp add: initial_state_def locked_16_9_def)
qed

text \<open>
  C2 as stated fails in the installed state: after \<open>UnityAspectLock_Install(16, 9)\<close> has
  succeeded, \<open>UnityAspectLock_Install(0, 9)\<close> returns \<open>1\<close>, not \<open>0\<close>.
\<close>

theorem Install_nonpositive_returns_1_when_installed:
  "UnityAspectLock_Install (Finite 16) (Finite 9) initial_state example_os =
     (1, locked_16_9, example_os\<lparr>subclasses := {(6, kSubclassId)}\<rparr>)
   \<and> fle (Finite 0) (Finite 0)
   \<and> fst (UnityAspectLock_Install (Finite 0) (Finite 9) locked_16_9
            (example_os\<lparr>subclasses := {(6, kSubclassId)}\<rparr>)) = 1"
  by (simp add: Install_example Install_installed locked_16_9_def)

text \<open>
  C3, as the code has it.  After a call \<open>UnityAspectLock_Install(aspectWidth, aspectHeight)\<close>
  that starts with the lock not installed and succeeds, \<open>g_aspect\<close> is the
  single-precision quotient \<open>aspectWidth / aspectHeight\<close>: width over height, the number
  that \<open>ApplyAspect\<close> multiplies a height with to get a width.
\<close>

theorem Install_stores_width_over_height:
  assumes "\<not> g_installed s"
    and "UnityAspectLock_Install aspectWidth aspectHeight s e = (1, s', e')"
  shows "g_aspect s' = fdiv aspectWidth aspectHeight"
  using assms by (rule Install_stores_ratio)

theorem Install_stores_width_over_height_witness:
  "\<not> g_installed initial_state
   \<and> UnityAspectLock_Install (Finite 16) (Finite 9) initial_state example_os =
       (1, locked_16_9, example_os\<lparr>subclasses := {(6, kSubclassId)}\<rparr>)
   \<and> g_aspect locked_16_9 = fdiv (Finite 16) (Finite 9)"
proof -
  have n: "\<not> g_installed initial_state" by (simp add: initial_state_def)
  from Install_stores_width_over_height [OF n Install_example] n Install_example
  show ?thesis by simp
qed

text \<open>
  C3 as stated fails: after the successful \<open>UnityAspectLock_Install(16, 9)\<close> the stored
  ratio is the single-precision value of \<open>16 / 9\<close>, which is not \<open>9 / 16\<close>, the
  quotient \<open>aspectHeight / aspectWidth\<close>.
\<close>

theorem Install_does_not_store_height_over_width:
  "UnityAspectLock_Install (Finite 16) (Finite 9) initial_state example_os =
     (1, locked_16_9, example_os\<lparr>subclasses := {(6, kSubclassId)}\<rparr>)
   \<and> g_aspect locked_16_9 = Finite (14913081 / 8388608)
   \<and> fdiv (Finite 9) (Finite 16) = Finite (9 / 16)
   \<and> g_aspect locked_16_9 \<noteq> fdiv (Finite 9) (Finite 16)"
  by (simp add: Install_example) (simp add: locked_16_9_def round_f32_16_9 round_f32_9_16)

text \<open>
  C9.  While the lock is installed, \<open>UnityAspectLock_Install\<close> returns \<open>1\<close> for every
  pair of arguments and changes neither the globals nor the window system.  Hence, when
  a first call installs the lock in a window system that had none of this module's
  callbacks attached, a second call returns \<open>1\<close> as well and changes nothing, and exactly
  one callback of this module is attached: the one on \<open>g_hwnd\<close>.
\<close>

theorem Install_idempotent:
  "(g_installed s \<longrightarrow> UnityAspectLock_Install aspectWidth aspectHeight s e = (1, s, e))
   \<and> (\<not> g_installed s0 \<and> own_attachments e0 = {}
        \<and> UnityAspectLock_Install a b s0 e0 = (1, s1, e1)
      \<longrightarrow> UnityAspectLock_Install c d s1 e1 = (1, s1, e1)
          \<and> own_attachments e1 = {(g_hwnd s1, kSubclassId)}
          \<and> card (own_attachments e1) = 1)"
proof (intro conjI impI)
  show "UnityAspectLock_Install aspectWidth aspectHeight s e = (1, s, e)" if "g_installed s"
    using that by (rule Install_installed)
next
  assume h: "\<not> g_installed s0 \<and> own_attachments e0 = {}
        \<and> UnityAspectLock_Install a b s0 e0 = (1, s1, e1)"
  then have ni: "\<not> g_installed s0" and emp: "own_attachments e0 = {}"
    and inst: "UnityAspectLock_Install a b s0 e0 = (1, s1, e1)" by simp_all
  have valid: "\<not> fle a (Finite 0)" "\<not> fle b (Finite 0)"
    using inst Install_invalid [OF ni, of a b e0] by auto
  from inst have s1: "g_installed s1" "g_hwnd s1 = FindMainWindowForCurrentProcess e0"
    and e1: "e1 = e0\<lparr>subclasses := insert (FindMainWindowForCurrentProcess e0, kSubclassId)
                               (subclasses e0)\<rparr>"
    unfolding Install_fresh [OF ni valid] by (auto split: if_splits)
  show "UnityAspectLock_Install c d s1 e1 = (1, s1, e1)"
    using s1(1) by (rule Install_installed)
  show own: "own_attachments e1 = {(g_hwnd s1, kSubclassId)}"
    using emp unfolding e1 s1(2) own_attachments_def by auto
  show "card (own_attachments e1) = 1"
    unfolding own by simp
qed

theorem Install_idempotent_witness:
  "g_installed locked_16_9
   \<and> UnityAspectLock_Install (Finite 4) (Finite 3) locked_16_9
        (example_os\<lparr>subclasses := {(6, kSubclassId)}\<rparr>) =
       (1, locked_16_9, example_os\<lparr>subclasses := {(6, kSubclassId)}\<rparr>)
   \<and> \<not> g_installed initial_state \<and> own_attachments example_os = {}
   \<and> UnityAspectLock_Install (Finite 16) (Finite 9) initial_state example_os =
       (1, locked_16_9, example_os\<lparr>subclasses := {(6, kSubclassId)}\<rparr>)
   \<and> own_attachments (example_os\<lparr>subclasses := {(6, kSubclassId)}\<rparr>) = {(6, kSubclassId)}
   \<and> card (own_attachments (example_os\<lparr>subclasses := {(6, kSubclassId)}\<rparr>)) = 1"
proof -
  have a: "g_installed locked_16_9" by (simp add: locked_16_9_def)
  have b: "\<not> g_installed initial_state \<and> own_attachments example_os = {}
      \<and> UnityAspectLock_Install (Finite 16) (Finite 9) initial_state example_os =
           (1, locked_16_9, example_os\<lparr>subclasses := {(6, kSubclassId)}\<rparr>)"
    by (simp add: Install_example) (simp add: initial_state_def own_attachments_def example_os_def)
  have c: "g_hwnd locked_16_9 = 6" by (simp add: locked_16_9_def)
  from Install_idempotent [of locked_16_9 "Finite 4" "Finite 3"
      "example_os\<lparr>subclasses := {(6, kSubclassId)}\<rparr>" initial_state example_os
      "Finite 16" "Finite 9" locked_16_9 "example_os\<lparr>subclasses := {(6, kSubclassId)}\<rparr>"
      "Finite 4" "Finite 3"] a b c
  show ?thesis by simp
qed

text \<open>
  C10.  When \<open>UnityAspectLock_Install\<close> is called with the lock not installed and two
  positive arguments and returns \<open>0\<close>, then no main window was found or the attach
  request was turned down, and the call has left traces all the same: \<open>g_aspect\<close> holds
  \<open>aspectWidth / aspectHeight\<close> and \<open>g_hwnd\<close> holds what the search returned (the window
  that was found, when the attach request failed); \<open>g_installed\<close> is still false and the
  window system is unchanged.
\<close>

theorem failed_Install_leaves_residue:
  assumes "\<not> g_installed s" "flt (Finite 0) aspectWidth" "flt (Finite 0) aspectHeight"
    and "UnityAspectLock_Install aspectWidth aspectHeight s e = (0, s', e')"
  shows "g_aspect s' = fdiv aspectWidth aspectHeight \<and> \<not> g_installed s'
       \<and> g_hwnd s' = FindMainWindowForCurrentProcess e \<and> e' = e
       \<and> (FindMainWindowForCurrentProcess e = 0 \<or> \<not> attach_accepted e)"
  using assms(4) assms(1)
  unfolding Install_fresh [OF assms(1) flt_zero_not_fle [OF assms(2)] flt_zero_not_fle [OF assms(3)]]
  by (auto split: if_splits)

theorem failed_Install_leaves_residue_witness:
  "\<not> g_installed initial_state \<and> flt (Finite 0) (Finite 16) \<and> flt (Finite 0) (Finite 9)
   \<and> UnityAspectLock_Install (Finite 16) (Finite 9) initial_state
        (example_os\<lparr>attach_accepted := False\<rparr>) =
       (0, \<lparr>g_hwnd = 6, g_installed = False, g_aspect = fdiv (Finite 16) (Finite 9)\<rparr>,
        example_os\<lparr>attach_accepted := False\<rparr>)
   \<and> g_aspect initial_state \<noteq> fdiv (Finite 16) (Finite 9)
   \<and> g_hwnd initial_state \<noteq> 6"
proof -
  have n: "\<not> g_installed initial_state" and p: "flt (Finite 0) (Finite 16)" "flt (Finite 0) (Finite 9)"
    by (simp_all add: initial_state_def)
  have f: "FindMainWindowForCurrentProcess (example_os\<lparr>attach_accepted := False\<rparr>) = 6"
    by (simp add: FindMainWindowForCurrentProcess_def example_os_def)
  have i: "UnityAspectLock_Install (Finite 16) (Finite 9) initial_state
        (example_os\<lparr>attach_accepted := False\<rparr>) =
       (0, \<lparr>g_hwnd = 6, g_installed = False, g_aspect = fdiv (Finite 16) (Finite 9)\<rparr>,
        example_os\<lparr>attach_accepted := False\<rparr>)"
    using Install_fresh [OF n flt_zero_not_fle [OF p(1)] flt_zero_not_fle [OF p(2)],
        of "example_os\<lparr>attach_accepted := False\<rparr>"]
    by (simp add: f initial_state_def)
  from failed_Install_leaves_residue [OF n p i] n p i
  show ?thesis by (simp add: initial_state_def round_f32_16_9 round_f32_9_16)
qed

section \<open>The branches of \<open>ApplyAspect\<close>\<close>

lemma WMSZ_distinct:
  "WMSZ_LEFT \<noteq> WMSZ_TOP" "WMSZ_LEFT \<noteq> WMSZ_BOTTOM"
  "WMSZ_RIGHT \<noteq> WMSZ_TOP" "WMSZ_RIGHT \<noteq> WMSZ_BOTTOM"
  "WMSZ_TOPLEFT \<noteq> WMSZ_TOP" "WMSZ_TOPLEFT \<noteq> WMSZ_BOTTOM"
  "WMSZ_TOPLEFT \<noteq> WMSZ_LEFT" "WMSZ_TOPLEFT \<noteq> WMSZ_RIGHT"
  "WMSZ_TOPRIGHT \<noteq> WMSZ_TOP" "WMSZ_TOPRIGHT \<noteq> WMSZ_BOTTOM"
  "WMSZ_TOPRIGHT \<noteq> WMSZ_LEFT" "WMSZ_TOPRIGHT \<noteq> WMSZ_RIGHT"
  "WMSZ_BOTTOMLEFT \<noteq> WMSZ_TOP" "WMSZ_BOTTOMLEFT \<noteq> WMSZ_BOTTOM"
  "WMSZ_BOTTOMLEFT \<noteq> WMSZ_LEFT" "WMSZ_BOTTOMLEFT \<noteq> WMSZ_RIGHT"
  "WMSZ_BOTTOMRIGHT \<noteq> WMSZ_TOP" "WMSZ_BOTTOMRIGHT \<noteq> WMSZ_BOTTOM"
  "WMSZ_BOTTOMRIGHT \<noteq> WMSZ_LEFT" "WMSZ_BOTTOMRIGHT \<noteq> WMSZ_RIGHT"
  "WMSZ_TOPLEFT \<noteq> WMSZ_TOPRIGHT" "WMSZ_BOTTOMLEFT \<noteq> WMSZ_TOPLEFT"
  "WMSZ_BOTTOMLEFT \<noteq> WMSZ_TOPRIGHT" "WMSZ_BOTTOMRIGHT \<noteq> WMSZ_TOPLEFT"
  "WMSZ_BOTTOMRIGHT \<noteq> WMSZ_TOPRIGHT" "WMSZ_BOTTOMRIGHT \<noteq> WMSZ_BOTTOMLEFT"
  "WMSZ_TOPRIGHT \<noteq> WMSZ_BOTTOMLEFT"
  by (simp_all add: WMSZ_LEFT_def WMSZ_RIGHT_def WMSZ_TOP_def WMSZ_TOPLEFT_def
      WMSZ_TOPRIGHT_def WMSZ_BOTTOM_def WMSZ_BOTTOMLEFT_def WMSZ_BOTTOMRIGHT_def)

lemma positive_not_sle: "0 <s (x::LONG) \<Longrightarrow> \<not> x \<le>s 0"
  by (simp add: word_sless_alt word_sle_eq)

lemma ApplyAspect_rect_guard:
  "fle (g_aspect s) (Finite 0) \<or> right r - left r \<le>s 0 \<or> bottom r - top_edge r \<le>s 0
   \<Longrightarrow> ApplyAspect_rect unspec s r edge = r"
  by (cases "fle (g_aspect s) (Finite 0)")
     (simp_all only: ApplyAspect_rect_def Let_def if_True if_False simp_thms)

lemma ApplyAspect_rect_horizontal:
  assumes "\<not> fle (g_aspect s) (Finite 0)" "0 <s right r - left r" "0 <s bottom r - top_edge r"
    and "edge = WMSZ_TOP \<or> edge = WMSZ_BOTTOM"
  shows "ApplyAspect_rect unspec s r edge =
     r\<lparr>right := left r + setWidthFromHeight unspec (g_aspect s) (right r - left r)
                           (bottom r - top_edge r)\<rparr>"
proof -
  have "\<not> (right r - left r \<le>s 0 \<or> bottom r - top_edge r \<le>s 0)"
    using assms(2,3) by (simp add: positive_not_sle)
  with assms(1,4) show ?thesis
    by (simp only: ApplyAspect_rect_def Let_def if_True if_False simp_thms)
qed

lemma ApplyAspect_rect_vertical:
  assumes "\<not> fle (g_aspect s) (Finite 0)" "0 <s right r - left r" "0 <s bottom r - top_edge r"
    and "edge = WMSZ_LEFT \<or> edge = WMSZ_RIGHT"
  shows "ApplyAspect_rect unspec s r edge =
     r\<lparr>bottom := top_edge r + setHeightFromWidth unspec (g_aspect s) (bottom r - top_edge r)
                               (right r - left r)\<rparr>"
proof -
  have "\<not> (right r - left r \<le>s 0 \<or> bottom r - top_edge r \<le>s 0)"
    using assms(2,3) by (simp add: positive_not_sle)
  moreover have "\<not> (edge = WMSZ_TOP \<or> edge = WMSZ_BOTTOM)"
    using assms(4) WMSZ_distinct by auto
  ultimately show ?thesis using assms(1,4)
    by (simp only: ApplyAspect_rect_def Let_def if_True if_False simp_thms)
qed

lemma ApplyAspect_rect_corner:
  assumes "\<not> fle (g_aspect s) (Finite 0)" "0 <s right r - left r" "0 <s bottom r - top_edge r"
    and "is_corner edge"
  shows "ApplyAspect_rect unspec s r edge =
     (if driveByWidth (g_aspect s) (right r - left r) (bottom r - top_edge r) then
        (if edge = WMSZ_TOPLEFT \<or> edge = WMSZ_TOPRIGHT
         then r\<lparr>top_edge := bottom r - setHeightFromWidth unspec (g_aspect s)
                                          (bottom r - top_edge r) (right r - left r)\<rparr>
         else r\<lparr>bottom := top_edge r + setHeightFromWidth unspec (g_aspect s)
                                          (bottom r - top_edge r) (right r - left r)\<rparr>)
      else
        (if edge = WMSZ_TOPLEFT \<or> edge = WMSZ_BOTTOMLEFT
         then r\<lparr>left := right r - setWidthFromHeight unspec (g_aspect s)
                                       (right r - left r) (bottom r - top_edge r)\<rparr>
         else r\<lparr>right := left r + setWidthFromHeight unspec (g_aspect s)
                                       (right r - left r) (bottom r - top_edge r)\<rparr>))"
proof -
  have "\<not> (right r - left r \<le>s 0 \<or> bottom r - top_edge r \<le>s 0)"
    using assms(2,3) by (simp add: positive_not_sle)
  moreover have "\<not> (edge = WMSZ_TOP \<or> edge = WMSZ_BOTTOM)"
    "\<not> (edge = WMSZ_LEFT \<or> edge = WMSZ_RIGHT)"
    using assms(4) WMSZ_distinct unfolding is_corner_def by auto
  moreover have "edge = WMSZ_TOPLEFT \<or> edge = WMSZ_TOPRIGHT
      \<or> edge = WMSZ_BOTTOMLEFT \<or> edge = WMSZ_BOTTOMRIGHT"
    using assms(4) unfolding is_corner_def .
  ultimately show ?thesis using assms(1)
    by (simp only: ApplyAspect_rect_def Let_def if_True if_False simp_thms)
qed

lemma ApplyAspect_rect_other:
  assumes "edge \<noteq> WMSZ_TOP" "edge \<noteq> WMSZ_BOTTOM" "edge \<noteq> WMSZ_LEFT" "edge \<noteq> WMSZ_RIGHT"
    "\<not> is_corner edge"
  shows "ApplyAspect_rect unspec s r edge = r"
proof -
  have "\<not> (edge = WMSZ_TOPLEFT \<or> edge = WMSZ_TOPRIGHT
      \<or> edge = WMSZ_BOTTOMLEFT \<or> edge = WMSZ_BOTTOMRIGHT)"
    using assms(5) unfolding is_corner_def .
  with assms(1-4) show ?thesis
    by (simp only: ApplyAspect_rect_def Let_def if_True if_False simp_thms if_cancel)
qed

lemma setWidthFromHeight_accept:
  "0 <s RoundToInt unspec (fmul (int_to_float newH) g)
   \<Longrightarrow> setWidthFromHeight unspec g w newH = RoundToInt unspec (fmul (int_to_float newH) g)"
  by (simp add: setWidthFromHeight_def)

lemma setWidthFromHeight_reject:
  "RoundToInt unspec (fmul (int_to_float newH) g) \<le>s 0 \<Longrightarrow> setWidthFromHeight unspec g w newH = w"
  by (simp add: setWidthFromHeight_def word_sless_alt word_sle_eq)

lemma setHeightFromWidth_accept:
  "0 <s RoundToInt unspec (fdiv (int_to_float newW) g)
   \<Longrightarrow> setHeightFromWidth unspec g h newW = RoundToInt unspec (fdiv (int_to_float newW) g)"
  by (simp add: setHeightFromWidth_def)

lemma setHeightFromWidth_reject:
  "RoundToInt unspec (fdiv (int_to_float newW) g) \<le>s 0 \<Longrightarrow> setHeightFromWidth unspec g h newW = h"
  by (simp add: setHeightFromWidth_def word_sless_alt word_sle_eq)

lemma RECT_same:
  "r\<lparr>right := left r + (right r - left r)\<rparr> = r"
  "r\<lparr>bottom := top_edge r + (bottom r - top_edge r)\<rparr> = r"
  "r\<lparr>top_edge := bottom r - (bottom r - top_edge r)\<rparr> = r"
  "r\<lparr>left := right r - (right r - left r)\<rparr> = r"
  by simp_all

text \<open>
  C8.  When the width \<open>right - left\<close> or the height \<open>bottom - top\<close> of the rectangle is
  not positive, or \<open>g_aspect <= 0\<close>, \<open>ApplyAspect\<close> leaves the rectangle as it is for
  every drag edge, and the \<open>WM_SIZING\<close> handler answers \<open>TRUE\<close> as always: no error is
  reported.
\<close>

theorem ApplyAspect_ignores_degenerate_input:
  assumes "right r - left r \<le>s 0 \<or> bottom r - top_edge r \<le>s 0 \<or> fle (g_aspect s) (Finite 0)"
  shows "ApplyAspect unspec s (Some r) edge = Some r
       \<and> SubclassProc unspec s WM_SIZING edge (Some r) kSubclassId = (ReturnedTRUE, Some r)"
proof -
  have "ApplyAspect_rect unspec s r edge = r"
    using assms by (intro ApplyAspect_rect_guard) blast
  then show ?thesis by (simp add: ApplyAspect_def SubclassProc_def)
qed

theorem ApplyAspect_ignores_degenerate_input_witness:
  "(10 :: LONG) - 10 \<le>s 0
   \<and> ApplyAspect (\<lambda>v. 0) locked_16_9 (Some \<lparr>left = 10, top_edge = 0, right = 10, bottom = 5\<rparr>)
        WMSZ_LEFT = Some \<lparr>left = 10, top_edge = 0, right = 10, bottom = 5\<rparr>
   \<and> SubclassProc (\<lambda>v. 0) locked_16_9 WM_SIZING WMSZ_LEFT
        (Some \<lparr>left = 10, top_edge = 0, right = 10, bottom = 5\<rparr>) kSubclassId =
       (ReturnedTRUE, Some \<lparr>left = 10, top_edge = 0, right = 10, bottom = 5\<rparr>)"
proof -
  have h: "(10 :: LONG) - 10 \<le>s 0" by simp
  from ApplyAspect_ignores_degenerate_input
    [of "\<lparr>left = 10, top_edge = 0, right = 10, bottom = 5\<rparr>" locked_16_9 "\<lambda>v. 0" WMSZ_LEFT] h
  show ?thesis by simp
qed

text \<open>
  C7.  For a rectangle of positive width and height and a ratio that passes the guard
  \<open>g_aspect <= 0\<close> (every positive ratio does), and for every drag edge: when the number
  derived for that edge, the result of \<open>RoundToInt\<close>, is \<open>0\<close> or negative,
  \<open>ApplyAspect\<close> leaves all four edges as they were.
\<close>

theorem nonpositive_derived_dimension_keeps_rect:
  assumes g: "\<not> fle (g_aspect s) (Finite 0)"
    and w: "0 <s right r - left r" and h: "0 <s bottom r - top_edge r"
    and d: "derived_dimension unspec (g_aspect s) (right r - left r) (bottom r - top_edge r) edge
              \<le>s 0"
  shows "ApplyAspect unspec s (Some r) edge = Some r"
proof -
  consider (hor) "edge = WMSZ_TOP \<or> edge = WMSZ_BOTTOM"
    | (ver) "edge = WMSZ_LEFT \<or> edge = WMSZ_RIGHT" "\<not> (edge = WMSZ_TOP \<or> edge = WMSZ_BOTTOM)"
    | (cor) "is_corner edge"
    | (oth) "edge \<noteq> WMSZ_TOP" "edge \<noteq> WMSZ_BOTTOM" "edge \<noteq> WMSZ_LEFT" "edge \<noteq> WMSZ_RIGHT"
        "\<not> is_corner edge"
    by blast
  then have "ApplyAspect_rect unspec s r edge = r"
  proof cases
    case hor
    with d have "RoundToInt unspec (fmul (int_to_float (bottom r - top_edge r)) (g_aspect s)) \<le>s 0"
      by (simp add: derived_dimension_def)
    then show ?thesis
      by (simp add: ApplyAspect_rect_horizontal [OF g w h hor] setWidthFromHeight_reject RECT_same)
  next
    case ver
    with d have "RoundToInt unspec (fdiv (int_to_float (right r - left r)) (g_aspect s)) \<le>s 0"
      by (simp add: derived_dimension_def)
    then show ?thesis
      by (simp add: ApplyAspect_rect_vertical [OF g w h ver(1)] setHeightFromWidth_reject RECT_same)
  next
    case cor
    then have ne: "\<not> (edge = WMSZ_TOP \<or> edge = WMSZ_BOTTOM)"
      "\<not> (edge = WMSZ_LEFT \<or> edge = WMSZ_RIGHT)"
      using WMSZ_distinct unfolding is_corner_def by auto
    show ?thesis
    proof (cases "driveByWidth (g_aspect s) (right r - left r) (bottom r - top_edge r)")
      case True
      with d ne have "RoundToInt unspec (fdiv (int_to_float (right r - left r)) (g_aspect s)) \<le>s 0"
        by (simp add: derived_dimension_def)
      with True show ?thesis
        by (simp add: ApplyAspect_rect_corner [OF g w h cor] setHeightFromWidth_reject RECT_same)
    next
      case False
      with d ne have "RoundToInt unspec (fmul (int_to_float (bottom r - top_edge r)) (g_aspect s)) \<le>s 0"
        by (simp add: derived_dimension_def)
      with False show ?thesis
        by (simp add: ApplyAspect_rect_corner [OF g w h cor] setWidthFromHeight_reject RECT_same)
    qed
  next
    case oth
    then show ?thesis by (rule ApplyAspect_rect_other)
  qed
  then show ?thesis by (simp add: ApplyAspect_def)
qed

theorem nonpositive_derived_dimension_keeps_rect_witness:
  "\<not> fle (fdiv (Finite 1) (Finite 1000)) (Finite 0)
   \<and> 0 <s (500 - 0 :: LONG) \<and> 0 <s (100 - 0 :: LONG)
   \<and> derived_dimension (\<lambda>v. 0) (fdiv (Finite 1) (Finite 1000)) (500 - 0) (100 - 0) WMSZ_TOPLEFT
        \<le>s 0
   \<and> ApplyAspect (\<lambda>v. 0) \<lparr>g_hwnd = 6, g_installed = True, g_aspect = fdiv (Finite 1) (Finite 1000)\<rparr>
        (Some \<lparr>left = 0, top_edge = 0, right = 500, bottom = 100\<rparr>) WMSZ_TOPLEFT =
       Some \<lparr>left = 0, top_edge = 0, right = 500, bottom = 100\<rparr>"
proof -
  have g: "\<not> fle (fdiv (Finite 1) (Finite 1000)) (Finite 0)" by code_simp
  have w: "0 <s (500 - 0 :: LONG)" and h: "0 <s (100 - 0 :: LONG)" by code_simp+
  have d: "derived_dimension (\<lambda>v. 0) (fdiv (Finite 1) (Finite 1000)) (500 - 0) (100 - 0)
             WMSZ_TOPLEFT \<le>s 0"
    by code_simp
  from nonpositive_derived_dimension_keeps_rect
    [of "\<lparr>g_hwnd = 6, g_installed = True, g_aspect = fdiv (Finite 1) (Finite 1000)\<rparr>"
        "\<lparr>left = 0, top_edge = 0, right = 500, bottom = 100\<rparr>" "\<lambda>v. 0" WMSZ_TOPLEFT]
    g w h d
  show ?thesis by (simp del: fdiv.simps)
qed

text \<open>
  C4, as the code has it.  For a rectangle of positive width and height and a ratio that
  passes the guard, a drag of the top or the bottom edge keeps left, top and bottom and sets
  \<open>right = left + newWidth\<close>, where \<open>newWidth\<close> is \<open>RoundToInt\<close> of the
  single-precision product of the height and \<open>g_aspect\<close>, provided that this number is
  positive.  With the ratio of \<open>UnityAspectLock_Install(16, 9)\<close> the rectangle
  \<open>(0, 0, 1600, 800)\<close> becomes \<open>(0, 0, 1422, 800)\<close>.
\<close>

theorem horizontal_edge_drag_derives_width:
  "(\<not> fle (g_aspect s) (Finite 0) \<and> 0 <s right r - left r \<and> 0 <s bottom r - top_edge r
     \<and> (edge = WMSZ_TOP \<or> edge = WMSZ_BOTTOM)
     \<and> 0 <s RoundToInt unspec (fmul (int_to_float (bottom r - top_edge r)) (g_aspect s))
    \<longrightarrow> ApplyAspect unspec s (Some r) edge =
          Some (r\<lparr>right := left r
                   + RoundToInt unspec (fmul (int_to_float (bottom r - top_edge r)) (g_aspect s))\<rparr>))
   \<and> (edge' = WMSZ_TOP \<or> edge' = WMSZ_BOTTOM
    \<longrightarrow> ApplyAspect unspec' locked_16_9
            (Some \<lparr>left = 0, top_edge = 0, right = 1600, bottom = 800\<rparr>) edge' =
          Some \<lparr>left = 0, top_edge = 0, right = 1422, bottom = 800\<rparr>)"
proof (intro conjI impI)
  assume a: "\<not> fle (g_aspect s) (Finite 0) \<and> 0 <s right r - left r \<and> 0 <s bottom r - top_edge r
     \<and> (edge = WMSZ_TOP \<or> edge = WMSZ_BOTTOM)
     \<and> 0 <s RoundToInt unspec (fmul (int_to_float (bottom r - top_edge r)) (g_aspect s))"
  then have g: "\<not> fle (g_aspect s) (Finite 0)" and w: "0 <s right r - left r"
    and h: "0 <s bottom r - top_edge r" and e: "edge = WMSZ_TOP \<or> edge = WMSZ_BOTTOM"
    and d: "0 <s RoundToInt unspec (fmul (int_to_float (bottom r - top_edge r)) (g_aspect s))"
    by simp_all
  show "ApplyAspect unspec s (Some r) edge =
          Some (r\<lparr>right := left r
                   + RoundToInt unspec (fmul (int_to_float (bottom r - top_edge r)) (g_aspect s))\<rparr>)"
    by (simp add: ApplyAspect_def ApplyAspect_rect_horizontal [OF g w h e]
        setWidthFromHeight_accept [OF d])
next
  assume "edge' = WMSZ_TOP \<or> edge' = WMSZ_BOTTOM"
  moreover have "ApplyAspect unspec' locked_16_9
            (Some \<lparr>left = 0, top_edge = 0, right = 1600, bottom = 800\<rparr>) WMSZ_TOP =
          Some \<lparr>left = 0, top_edge = 0, right = 1422, bottom = 800\<rparr>"
    by code_simp
  moreover have "ApplyAspect unspec' locked_16_9
            (Some \<lparr>left = 0, top_edge = 0, right = 1600, bottom = 800\<rparr>) WMSZ_BOTTOM =
          Some \<lparr>left = 0, top_edge = 0, right = 1422, bottom = 800\<rparr>"
    by code_simp
  ultimately show "ApplyAspect unspec' locked_16_9
            (Some \<lparr>left = 0, top_edge = 0, right = 1600, bottom = 800\<rparr>) edge' =
          Some \<lparr>left = 0, top_edge = 0, right = 1422, bottom = 800\<rparr>"
    by blast
qed

theorem horizontal_edge_drag_derives_width_witness:
  "\<not> fle (g_aspect locked_16_9) (Finite 0)
   \<and> 0 <s (1600 - 0 :: LONG) \<and> 0 <s (800 - 0 :: LONG)
   \<and> RoundToInt (\<lambda>v. 0) (fmul (int_to_float (800 - 0)) (g_aspect locked_16_9)) = 1422
   \<and> 0 <s (1422 :: LONG)
   \<and> ApplyAspect (\<lambda>v. 0) locked_16_9
        (Some \<lparr>left = 0, top_edge = 0, right = 1600, bottom = 800\<rparr>) WMSZ_BOTTOM =
       Some \<lparr>left = 0, top_edge = 0, right = 1422, bottom = 800\<rparr>"
proof -
  have g: "\<not> fle (g_aspect locked_16_9) (Finite 0)" by code_simp
  have w: "0 <s (1600 - 0 :: LONG)" and h: "0 <s (800 - 0 :: LONG)" and p: "0 <s (1422 :: LONG)"
    by code_simp+
  have n: "RoundToInt (\<lambda>v. 0) (fmul (int_to_float (800 - 0)) (g_aspect locked_16_9)) = 1422"
    by code_simp
  from horizontal_edge_drag_derives_width
    [of locked_16_9 "\<lparr>left = 0, top_edge = 0, right = 1600, bottom = 800\<rparr>" WMSZ_BOTTOM
        "\<lambda>v. 0" WMSZ_BOTTOM "\<lambda>v. 0"] g w h p n
  show ?thesis by simp
qed

text \<open>
  C4 as stated fails where the rounded product is not positive: with the ratio \<open>1 : 4\<close>
  and the rectangle \<open>(0, 0, 10, 1)\<close>, \<open>RoundToInt\<close> gives \<open>0\<close> for the new width, and
  a drag of the top edge leaves \<open>right = 10\<close> instead of setting it to \<open>left + 0\<close>.
\<close>

theorem horizontal_edge_drag_keeps_width_on_zero:
  "\<not> fle (fdiv (Finite 1) (Finite 4)) (Finite 0)
   \<and> 0 <s (10 - 0 :: LONG) \<and> 0 <s (1 - 0 :: LONG)
   \<and> RoundToInt (\<lambda>v. 0) (fmul (int_to_float (1 - 0)) (fdiv (Finite 1) (Finite 4))) = 0
   \<and> ApplyAspect (\<lambda>v. 0) \<lparr>g_hwnd = 6, g_installed = True, g_aspect = fdiv (Finite 1) (Finite 4)\<rparr>
        (Some \<lparr>left = 0, top_edge = 0, right = 10, bottom = 1\<rparr>) WMSZ_TOP =
       Some \<lparr>left = 0, top_edge = 0, right = 10, bottom = 1\<rparr>
   \<and> ApplyAspect (\<lambda>v. 0) \<lparr>g_hwnd = 6, g_installed = True, g_aspect = fdiv (Finite 1) (Finite 4)\<rparr>
        (Some \<lparr>left = 0, top_edge = 0, right = 10, bottom = 1\<rparr>) WMSZ_TOP \<noteq>
       Some \<lparr>left = 0, top_edge = 0, right = 0 + 0, bottom = 1\<rparr>"
  by code_simp

text \<open>
  C5.  For a rectangle of positive width \<open>w\<close> and height \<open>h\<close>, a ratio \<open>g\<close> that passes
  the guard and a corner drag, let \<open>errH = |w / g - h|\<close> and \<open>errW = |h * g - w|\<close> in
  single precision.  If \<open>errH < errW\<close> then left and right stay, and the new height is
  \<open>RoundToInt(w / g)\<close> when that is positive and \<open>h\<close> when it is not: the height is derived
  from the width.  Otherwise top and bottom stay, and the new width is \<open>RoundToInt(h * g)\<close>
  when that is positive and \<open>w\<close> when it is not: the width is derived from the height.  For
  \<open>w = 1600\<close>, \<open>h = 850\<close> and the ratio of \<open>UnityAspectLock_Install(16, 9)\<close> the width
  drives, and the new height is \<open>900\<close>; for \<open>w = 900\<close>, \<open>h = 1700\<close> and the ratio
  \<open>9 : 16\<close> the height drives, and the new width is \<open>956\<close>.
\<close>

theorem corner_drag_decision:
  "(\<not> fle g (Finite 0) \<and> g = g_aspect s \<and> w = right r - left r \<and> h = bottom r - top_edge r
     \<and> 0 <s w \<and> 0 <s h \<and> is_corner edge
     \<and> errH = fabs (fsub (fdiv (int_to_float w) g) (int_to_float h))
     \<and> errW = fabs (fsub (fmul (int_to_float h) g) (int_to_float w))
    \<longrightarrow> (\<exists>r'. ApplyAspect unspec s (Some r) edge = Some r'
          \<and> (flt errH errW \<longrightarrow> left r' = left r \<and> right r' = right r
                \<and> bottom r' - top_edge r' =
                    (if 0 <s RoundToInt unspec (fdiv (int_to_float w) g)
                     then RoundToInt unspec (fdiv (int_to_float w) g) else h))
          \<and> (\<not> flt errH errW \<longrightarrow> top_edge r' = top_edge r \<and> bottom r' = bottom r
                \<and> right r' - left r' =
                    (if 0 <s RoundToInt unspec (fmul (int_to_float h) g)
                     then RoundToInt unspec (fmul (int_to_float h) g) else w))))
   \<and> flt (fabs (fsub (fdiv (int_to_float 1600) (g_aspect locked_16_9)) (int_to_float 850)))
          (fabs (fsub (fmul (int_to_float 850) (g_aspect locked_16_9)) (int_to_float 1600)))
   \<and> RoundToInt unspec' (fdiv (int_to_float 1600) (g_aspect locked_16_9)) = 900
   \<and> ApplyAspect unspec' locked_16_9
        (Some \<lparr>left = 0, top_edge = 0, right = 1600, bottom = 850\<rparr>) WMSZ_BOTTOMRIGHT =
       Some \<lparr>left = 0, top_edge = 0, right = 1600, bottom = 900\<rparr>
   \<and> \<not> flt (fabs (fsub (fdiv (int_to_float 900) (g_aspect locked_9_16)) (int_to_float 1700)))
            (fabs (fsub (fmul (int_to_float 1700) (g_aspect locked_9_16)) (int_to_float 900)))
   \<and> RoundToInt unspec' (fmul (int_to_float 1700) (g_aspect locked_9_16)) = 956
   \<and> ApplyAspect unspec' locked_9_16
        (Some \<lparr>left = 0, top_edge = 0, right = 900, bottom = 1700\<rparr>) WMSZ_BOTTOMRIGHT =
       Some \<lparr>left = 0, top_edge = 0, right = 956, bottom = 1700\<rparr>"
proof (intro conjI impI)
  assume a: "\<not> fle g (Finite 0) \<and> g = g_aspect s \<and> w = right r - left r
     \<and> h = bottom r - top_edge r \<and> 0 <s w \<and> 0 <s h \<and> is_corner edge
     \<and> errH = fabs (fsub (fdiv (int_to_float w) g) (int_to_float h))
     \<and> errW = fabs (fsub (fmul (int_to_float h) g) (int_to_float w))"
  then have g: "\<not> fle (g_aspect s) (Finite 0)" and w: "0 <s right r - left r"
    and h: "0 <s bottom r - top_edge r" and e: "is_corner edge"
    and eqs: "g = g_aspect s" "w = right r - left r" "h = bottom r - top_edge r"
    by blast+
  from a have d: "flt errH errW = driveByWidth g w h"
    by (simp add: driveByWidth_def Let_def)
  have nh: "setHeightFromWidth unspec g h w =
      (if 0 <s RoundToInt unspec (fdiv (int_to_float w) g)
       then RoundToInt unspec (fdiv (int_to_float w) g) else h)"
    by (simp add: setHeightFromWidth_def Let_def)
  have nw: "setWidthFromHeight unspec g w h =
      (if 0 <s RoundToInt unspec (fmul (int_to_float h) g)
       then RoundToInt unspec (fmul (int_to_float h) g) else w)"
    by (simp add: setWidthFromHeight_def Let_def)
  have "\<exists>r'. ApplyAspect unspec s (Some r) edge = Some r'
          \<and> (flt errH errW \<longrightarrow> left r' = left r \<and> right r' = right r
                \<and> bottom r' - top_edge r' = setHeightFromWidth unspec g h w)
          \<and> (\<not> flt errH errW \<longrightarrow> top_edge r' = top_edge r \<and> bottom r' = bottom r
                \<and> right r' - left r' = setWidthFromHeight unspec g w h)"
    unfolding d eqs ApplyAspect_def
    by (simp add: ApplyAspect_rect_corner [OF g w h e])
  then show "\<exists>r'. ApplyAspect unspec s (Some r) edge = Some r'
          \<and> (flt errH errW \<longrightarrow> left r' = left r \<and> right r' = right r
                \<and> bottom r' - top_edge r' =
                    (if 0 <s RoundToInt unspec (fdiv (int_to_float w) g)
                     then RoundToInt unspec (fdiv (int_to_float w) g) else h))
          \<and> (\<not> flt errH errW \<longrightarrow> top_edge r' = top_edge r \<and> bottom r' = bottom r
                \<and> right r' - left r' =
                    (if 0 <s RoundToInt unspec (fmul (int_to_float h) g)
                     then RoundToInt unspec (fmul (int_to_float h) g) else w))"
    by (simp only: nh nw)
next
  show "flt (fabs (fsub (fdiv (int_to_float 1600) (g_aspect locked_16_9)) (int_to_float 850)))
          (fabs (fsub (fmul (int_to_float 850) (g_aspect locked_16_9)) (int_to_float 1600)))"
    by code_simp
  show "RoundToInt unspec' (fdiv (int_to_float 1600) (g_aspect locked_16_9)) = 900"
    by code_simp
  show "ApplyAspect unspec' locked_16_9
        (Some \<lparr>left = 0, top_edge = 0, right = 1600, bottom = 850\<rparr>) WMSZ_BOTTOMRIGHT =
       Some \<lparr>left = 0, top_edge = 0, right = 1600, bottom = 900\<rparr>"
    by code_simp
  show "RoundToInt unspec' (fmul (int_to_float 1700) (g_aspect locked_9_16)) = 956"
    by code_simp
  show "ApplyAspect unspec' locked_9_16
        (Some \<lparr>left = 0, top_edge = 0, right = 900, bottom = 1700\<rparr>) WMSZ_BOTTOMRIGHT =
       Some \<lparr>left = 0, top_edge = 0, right = 956, bottom = 1700\<rparr>"
    by code_simp
  show "\<not> flt (fabs (fsub (fdiv (int_to_float 900) (g_aspect locked_9_16)) (int_to_float 1700)))
            (fabs (fsub (fmul (int_to_float 1700) (g_aspect locked_9_16)) (int_to_float 900)))"
    by code_simp
qed

theorem corner_drag_decision_witness:
  "\<not> fle (g_aspect locked_16_9) (Finite 0)
   \<and> 0 <s (1600 - 0 :: LONG) \<and> 0 <s (850 - 0 :: LONG) \<and> is_corner WMSZ_TOPLEFT
   \<and> flt (fabs (fsub (fdiv (int_to_float (1600 - 0)) (g_aspect locked_16_9))
                      (int_to_float (850 - 0))))
          (fabs (fsub (fmul (int_to_float (850 - 0)) (g_aspect locked_16_9))
                      (int_to_float (1600 - 0))))
   \<and> RoundToInt (\<lambda>v. 0) (fdiv (int_to_float (1600 - 0)) (g_aspect locked_16_9)) = 900
   \<and> (\<exists>r'. ApplyAspect (\<lambda>v. 0) locked_16_9
              (Some \<lparr>left = 0, top_edge = 0, right = 1600, bottom = 850\<rparr>) WMSZ_TOPLEFT = Some r'
          \<and> left r' = 0 \<and> right r' = 1600 \<and> bottom r' - top_edge r' = 900)
   \<and> \<not> fle (g_aspect locked_9_16) (Finite 0)
   \<and> 0 <s (900 - 0 :: LONG) \<and> 0 <s (1700 - 0 :: LONG)
   \<and> \<not> flt (fabs (fsub (fdiv (int_to_float (900 - 0)) (g_aspect locked_9_16))
                        (int_to_float (1700 - 0))))
            (fabs (fsub (fmul (int_to_float (1700 - 0)) (g_aspect locked_9_16))
                        (int_to_float (900 - 0))))
   \<and> RoundToInt (\<lambda>v. 0) (fmul (int_to_float (1700 - 0)) (g_aspect locked_9_16)) = 956
   \<and> (\<exists>r'. ApplyAspect (\<lambda>v. 0) locked_9_16
              (Some \<lparr>left = 0, top_edge = 0, right = 900, bottom = 1700\<rparr>) WMSZ_TOPLEFT = Some r'
          \<and> top_edge r' = 0 \<and> bottom r' = 1700 \<and> right r' - left r' = 956)"
proof -
  have g: "\<not> fle (g_aspect locked_16_9) (Finite 0)" by code_simp
  have w: "0 <s (1600 - 0 :: LONG)" and h: "0 <s (850 - 0 :: LONG)" by code_simp+
  have c: "is_corner WMSZ_TOPLEFT" by (simp add: is_corner_def)
  have d: "flt (fabs (fsub (fdiv (int_to_float (1600 - 0)) (g_aspect locked_16_9))
                      (int_to_float (850 - 0))))
          (fabs (fsub (fmul (int_to_float (850 - 0)) (g_aspect locked_16_9))
                      (int_to_float (1600 - 0))))"
    by code_simp
  have n: "RoundToInt (\<lambda>v. 0) (fdiv (int_to_float (1600 - 0)) (g_aspect locked_16_9)) = 900"
    by code_simp
  have p: "0 <s (900 :: LONG)" "0 <s (956 :: LONG)" by code_simp+
  have g': "\<not> fle (g_aspect locked_9_16) (Finite 0)" by code_simp
  have w': "0 <s (900 - 0 :: LONG)" and h': "0 <s (1700 - 0 :: LONG)" by code_simp+
  have d': "\<not> flt (fabs (fsub (fdiv (int_to_float (900 - 0)) (g_aspect locked_9_16))
                        (int_to_float (1700 - 0))))
            (fabs (fsub (fmul (int_to_float (1700 - 0)) (g_aspect locked_9_16))
                        (int_to_float (900 - 0))))"
    by code_simp
  have n': "RoundToInt (\<lambda>v. 0) (fmul (int_to_float (1700 - 0)) (g_aspect locked_9_16)) = 956"
    by code_simp
  from corner_drag_decision
    [of "g_aspect locked_16_9" locked_16_9 "1600 - 0"
        "\<lparr>left = 0, top_edge = 0, right = 1600, bottom = 850\<rparr>" "850 - 0" WMSZ_TOPLEFT
        "fabs (fsub (fdiv (int_to_float (1600 - 0)) (g_aspect locked_16_9)) (int_to_float (850 - 0)))"
        "fabs (fsub (fmul (int_to_float (850 - 0)) (g_aspect locked_16_9)) (int_to_float (1600 - 0)))"
        "\<lambda>v. 0" "\<lambda>v. 0"]
    g w h c d n p
  have first: "\<exists>r'. ApplyAspect (\<lambda>v. 0) locked_16_9
              (Some \<lparr>left = 0, top_edge = 0, right = 1600, bottom = 850\<rparr>) WMSZ_TOPLEFT = Some r'
          \<and> left r' = 0 \<and> right r' = 1600 \<and> bottom r' - top_edge r' = 900"
    by (auto simp del: fdiv.simps fmul.simps fsub.simps)
  from corner_drag_decision
    [of "g_aspect locked_9_16" locked_9_16 "900 - 0"
        "\<lparr>left = 0, top_edge = 0, right = 900, bottom = 1700\<rparr>" "1700 - 0" WMSZ_TOPLEFT
        "fabs (fsub (fdiv (int_to_float (900 - 0)) (g_aspect locked_9_16)) (int_to_float (1700 - 0)))"
        "fabs (fsub (fmul (int_to_float (1700 - 0)) (g_aspect locked_9_16)) (int_to_float (900 - 0)))"
        "\<lambda>v. 0" "\<lambda>v. 0"]
    g' w' h' c d' n' p
  have second: "\<exists>r'. ApplyAspect (\<lambda>v. 0) locked_9_16
              (Some \<lparr>left = 0, top_edge = 0, right = 900, bottom = 1700\<rparr>) WMSZ_TOPLEFT = Some r'
          \<and> top_edge r' = 0 \<and> bottom r' = 1700 \<and> right r' - left r' = 956"
    by (auto simp del: fdiv.simps fmul.simps fsub.simps)
  from g w h c d n first g' w' h' d' n' second show ?thesis by blast
qed

text \<open>
  C6.  For a rectangle of positive width and height, a ratio that passes the guard and a
  corner drag, with \<open>newHeight\<close> and \<open>newWidth\<close> the results of the two helper
  lambdas: when the width drives, \<open>WMSZ_TOPLEFT\<close> and \<open>WMSZ_TOPRIGHT\<close> set
  \<open>top = bottom - newHeight\<close> and \<open>WMSZ_BOTTOMLEFT\<close> and \<open>WMSZ_BOTTOMRIGHT\<close> set
  \<open>bottom = top + newHeight\<close>; when the height drives, \<open>WMSZ_TOPLEFT\<close> and
  \<open>WMSZ_BOTTOMLEFT\<close> set \<open>left = right - newWidth\<close> and \<open>WMSZ_TOPRIGHT\<close> and
  \<open>WMSZ_BOTTOMRIGHT\<close> set \<open>right = left + newWidth\<close>.  The other three edges keep their
  values in each case.
\<close>

theorem corner_drag_moves_one_edge:
  assumes g: "\<not> fle (g_aspect s) (Finite 0)"
    and w: "0 <s right r - left r" and h: "0 <s bottom r - top_edge r"
    and e: "is_corner edge"
    and nh: "newHeight = setHeightFromWidth unspec (g_aspect s) (bottom r - top_edge r)
                           (right r - left r)"
    and nw: "newWidth = setWidthFromHeight unspec (g_aspect s) (right r - left r)
                          (bottom r - top_edge r)"
  shows "\<exists>r'. ApplyAspect unspec s (Some r) edge = Some r'
     \<and> (driveByWidth (g_aspect s) (right r - left r) (bottom r - top_edge r) \<longrightarrow>
           ((edge = WMSZ_TOPLEFT \<or> edge = WMSZ_TOPRIGHT) \<longrightarrow>
              top_edge r' = bottom r - newHeight \<and> bottom r' = bottom r
              \<and> left r' = left r \<and> right r' = right r)
         \<and> ((edge = WMSZ_BOTTOMLEFT \<or> edge = WMSZ_BOTTOMRIGHT) \<longrightarrow>
              bottom r' = top_edge r + newHeight \<and> top_edge r' = top_edge r
              \<and> left r' = left r \<and> right r' = right r))
     \<and> (\<not> driveByWidth (g_aspect s) (right r - left r) (bottom r - top_edge r) \<longrightarrow>
           ((edge = WMSZ_TOPLEFT \<or> edge = WMSZ_BOTTOMLEFT) \<longrightarrow>
              left r' = right r - newWidth \<and> right r' = right r
              \<and> top_edge r' = top_edge r \<and> bottom r' = bottom r)
         \<and> ((edge = WMSZ_TOPRIGHT \<or> edge = WMSZ_BOTTOMRIGHT) \<longrightarrow>
              right r' = left r + newWidth \<and> left r' = left r
              \<and> top_edge r' = top_edge r \<and> bottom r' = bottom r))"
proof -
  have "ApplyAspect unspec s (Some r) edge = Some (ApplyAspect_rect unspec s r edge)"
    by (simp add: ApplyAspect_def)
  then show ?thesis
    unfolding ApplyAspect_rect_corner [OF g w h e] nh nw
    using WMSZ_distinct by auto
qed

theorem corner_drag_moves_one_edge_witness:
  "\<not> fle (g_aspect locked_9_16) (Finite 0)
   \<and> 0 <s (900 - 0 :: LONG) \<and> 0 <s (1700 - 0 :: LONG) \<and> is_corner WMSZ_TOPLEFT
   \<and> \<not> driveByWidth (g_aspect locked_9_16) (900 - 0) (1700 - 0)
   \<and> setWidthFromHeight (\<lambda>v. 0) (g_aspect locked_9_16) (900 - 0) (1700 - 0) = 956
   \<and> (\<exists>r'. ApplyAspect (\<lambda>v. 0) locked_9_16
              (Some \<lparr>left = 0, top_edge = 0, right = 900, bottom = 1700\<rparr>) WMSZ_TOPLEFT = Some r'
          \<and> left r' = 900 - 956 \<and> right r' = 900 \<and> top_edge r' = 0 \<and> bottom r' = 1700)"
proof -
  have g: "\<not> fle (g_aspect locked_9_16) (Finite 0)" by code_simp
  have w: "0 <s (900 - 0 :: LONG)" and h: "0 <s (1700 - 0 :: LONG)" by code_simp+
  have c: "is_corner WMSZ_TOPLEFT" by (simp add: is_corner_def)
  have d: "\<not> driveByWidth (g_aspect locked_9_16) (900 - 0) (1700 - 0)" by code_simp
  have n: "setWidthFromHeight (\<lambda>v. 0) (g_aspect locked_9_16) (900 - 0) (1700 - 0) = 956"
    by code_simp
  from corner_drag_moves_one_edge
    [of locked_9_16 "\<lparr>left = 0, top_edge = 0, right = 900, bottom = 1700\<rparr>" WMSZ_TOPLEFT
        "setHeightFromWidth (\<lambda>v. 0) (g_aspect locked_9_16) (1700 - 0) (900 - 0)" "\<lambda>v. 0" 956]
    g w h c d n
  show ?thesis by (auto simp del: fdiv.simps fmul.simps fsub.simps)
qed

section \<open>The ratio of a corrected rectangle\<close>

lemma accepted_width_close:
  fixes \<rho> g' :: rat
  assumes h: "0 <s h"
    and g: "\<rho> * (1 - 1 / 2 ^ 24) \<le> g'" "g' \<le> \<rho> * (1 + 1 / 2 ^ 24)"
    and \<rho>: "1 / 2 ^ 20 \<le> \<rho>" and P: "of_int (sint h) * \<rho> \<le> 2 ^ 20"
    and acc: "0 <s RoundToInt unspec (fmul (int_to_float h) (Finite g'))"
  shows "\<bar>of_int (sint (setWidthFromHeight unspec (Finite g') w h)) - of_int (sint h) * \<rho>\<bar> \<le> 1"
proof -
  from derive_width_close [OF h refl g \<rho> P, of unspec] obtain N where
    N: "RoundToInt unspec (fmul (int_to_float h) (Finite g')) = word_of_int N"
       "in_long_range N" "\<bar>of_int N - of_int (sint h) * \<rho>\<bar> \<le> 1"
    by blast
  have "setWidthFromHeight unspec (Finite g') w h = word_of_int N"
    using setWidthFromHeight_accept [OF acc] N(1) by simp
  then show ?thesis using N(2,3) by (simp only: sint_word_of_int_in_range)
qed

lemma accepted_height_close:
  fixes \<rho> g' :: rat
  assumes w: "0 <s w"
    and g: "\<rho> * (1 - 1 / 2 ^ 24) \<le> g'" "g' \<le> \<rho> * (1 + 1 / 2 ^ 24)"
    and \<rho>: "0 < \<rho>" "\<rho> \<le> 2 ^ 20" and Q: "of_int (sint w) / \<rho> \<le> 2 ^ 20"
    and acc: "0 <s RoundToInt unspec (fdiv (int_to_float w) (Finite g'))"
  shows "\<bar>of_int (sint (setHeightFromWidth unspec (Finite g') h w)) - of_int (sint w) / \<rho>\<bar> \<le> 1"
proof -
  from derive_height_close [OF w refl g \<rho> Q, of unspec] obtain N where
    N: "RoundToInt unspec (fdiv (int_to_float w) (Finite g')) = word_of_int N"
       "in_long_range N" "\<bar>of_int N - of_int (sint w) / \<rho>\<bar> \<le> 1"
    by blast
  have "setHeightFromWidth unspec (Finite g') h w = word_of_int N"
    using setHeightFromWidth_accept [OF acc] N(1) by simp
  then show ?thesis using N(2,3) by (simp only: sint_word_of_int_in_range)
qed

lemma rect_size_after:
  "rect_width (r\<lparr>right := left r + n\<rparr>) = sint n"
  "rect_height (r\<lparr>right := left r + n\<rparr>) = rect_height r"
  "rect_width (r\<lparr>left := right r - n\<rparr>) = sint n"
  "rect_height (r\<lparr>left := right r - n\<rparr>) = rect_height r"
  "rect_height (r\<lparr>bottom := top_edge r + n\<rparr>) = sint n"
  "rect_width (r\<lparr>bottom := top_edge r + n\<rparr>) = rect_width r"
  "rect_height (r\<lparr>top_edge := bottom r - n\<rparr>) = sint n"
  "rect_width (r\<lparr>top_edge := bottom r - n\<rparr>) = rect_width r"
  by (simp_all add: rect_width_def rect_height_def)

text \<open>
  C1, as the code has it.  Let \<open>UnityAspectLock_Install\<close> succeed from the uninstalled
  state with a positive finite pair, of ratio \<open>\<rho> = aspectWidth / aspectHeight\<close>.  Let the
  \<open>WM_SIZING\<close> handler then correct a rectangle of positive width \<open>w\<close> and height \<open>h\<close>
  for one of the eight drag edges, with \<open>h * \<rho>\<close> and \<open>w / \<rho>\<close> at most \<open>2\<^sup>2\<^sup>0\<close>, and let
  the dimension derived for that edge be rounded to a positive number.  Then the corrected
  rectangle agrees with \<open>\<rho>\<close> up to one pixel: its width is within one pixel of its height
  times \<open>\<rho>\<close>, or its height within one pixel of its width divided by \<open>\<rho>\<close>.
\<close>

theorem corrected_rect_within_one_pixel:
  assumes pos: "0 < a" "0 < b"
    and ni: "\<not> g_installed s0"
    and inst: "UnityAspectLock_Install (Finite a) (Finite b) s0 e0 = (1, s, e)"
    and w: "0 <s right r - left r" and h: "0 <s bottom r - top_edge r"
    and edge: "is_drag_edge edge"
    and P: "of_int (rect_height r) * (a / b) \<le> 2 ^ 20"
    and Q: "of_int (rect_width r) / (a / b) \<le> 2 ^ 20"
    and acc: "0 <s derived_dimension unspec (g_aspect s) (right r - left r)
                     (bottom r - top_edge r) edge"
  shows "\<exists>r'. SubclassProc unspec s WM_SIZING edge (Some r) kSubclassId = (ReturnedTRUE, Some r')
           \<and> agrees_within_one_pixel (a / b) (rect_width r') (rect_height r')"
proof -
  define \<rho> where "\<rho> = a / b"
  have rpos: "0 < \<rho>" unfolding \<rho>_def using pos by simp
  have "1 \<le> rect_height r" "1 \<le> rect_width r"
    using w h by (simp_all add: rect_height_def rect_width_def word_sless_alt)
  then have H1: "(1::rat) \<le> of_int (rect_height r)" and W1: "(1::rat) \<le> of_int (rect_width r)"
    by simp_all
  have "\<rho> = 1 * \<rho>" by simp
  also have "\<dots> \<le> of_int (rect_height r) * \<rho>"
    using H1 rpos by (intro mult_right_mono) simp_all
  finally have rhi: "\<rho> \<le> 2 ^ 20" using P unfolding \<rho>_def by linarith
  have "1 / \<rho> \<le> of_int (rect_width r) / \<rho>"
    using W1 rpos by (intro divide_right_mono) simp_all
  then have "1 / \<rho> \<le> 2 ^ 20" using Q unfolding \<rho>_def by linarith
  then have "1 \<le> 2 ^ 20 * \<rho>" using rpos by (simp add: field_simps)
  then have rlo: "1 / 2 ^ 20 \<le> \<rho>" by (simp add: field_simps)
  have "(2::rat) powi (- 126) \<le> 1 / 2 ^ 20" by (simp add: power_int_def field_simps)
  then have nlo: "2 powi (- 126) \<le> \<rho>" using rlo by linarith
  have "(2::rat) ^ 20 \<le> 2 ^ 127" by simp
  then have nhi: "\<rho> \<le> 2 ^ 127" using rhi by linarith
  from round_f32_normal [OF nlo nhi] obtain g' where
    g': "round_f32 \<rho> = Finite g'" "\<rho> * (1 - 1 / 2 ^ 24) \<le> g'" "g' \<le> \<rho> * (1 + 1 / 2 ^ 24)"
    by blast
  have "g_aspect s = fdiv (Finite a) (Finite b)"
    using ni inst by (rule Install_stores_ratio)
  then have gs: "g_aspect s = Finite g'"
    using pos g'(1) by (simp add: \<rho>_def)
  have "0 < \<rho> * (1 - 1 / 2 ^ 24)" using rpos by simp
  then have "0 < g'" using g'(2) by (rule less_le_trans)
  then have guard: "\<not> fle (g_aspect s) (Finite 0)" by (simp add: gs)
  have PH: "of_int (sint (bottom r - top_edge r)) * \<rho> \<le> 2 ^ 20"
    using P by (simp only: rect_height_def \<rho>_def)
  have QW: "of_int (sint (right r - left r)) / \<rho> \<le> 2 ^ 20"
    using Q by (simp only: rect_width_def \<rho>_def)
  have by_height:
    "\<bar>of_int (sint (setWidthFromHeight unspec (g_aspect s) (right r - left r)
                        (bottom r - top_edge r))) - of_int (rect_height r) * \<rho>\<bar> \<le> 1"
    if "0 <s RoundToInt unspec (fmul (int_to_float (bottom r - top_edge r)) (g_aspect s))"
    using accepted_width_close [OF h g'(2,3) rlo PH that [unfolded gs]]
    by (simp only: gs rect_height_def)
  have by_width:
    "\<bar>of_int (sint (setHeightFromWidth unspec (g_aspect s) (bottom r - top_edge r)
                        (right r - left r))) - of_int (rect_width r) / \<rho>\<bar> \<le> 1"
    if "0 <s RoundToInt unspec (fdiv (int_to_float (right r - left r)) (g_aspect s))"
    using accepted_height_close [OF w g'(2,3) rpos rhi QW that [unfolded gs]]
    by (simp only: gs rect_width_def)
  have sub: "SubclassProc unspec s WM_SIZING edge (Some r) kSubclassId =
      (ReturnedTRUE, Some (ApplyAspect_rect unspec s r edge))"
    by (simp add: SubclassProc_def ApplyAspect_def)
  consider (hor) "edge = WMSZ_TOP \<or> edge = WMSZ_BOTTOM"
    | (ver) "edge = WMSZ_LEFT \<or> edge = WMSZ_RIGHT" "\<not> (edge = WMSZ_TOP \<or> edge = WMSZ_BOTTOM)"
    | (cor) "is_corner edge"
    using edge unfolding is_drag_edge_def by blast
  then have "agrees_within_one_pixel \<rho> (rect_width (ApplyAspect_rect unspec s r edge))
      (rect_height (ApplyAspect_rect unspec s r edge))"
  proof cases
    case hor
    with acc have "0 <s RoundToInt unspec (fmul (int_to_float (bottom r - top_edge r)) (g_aspect s))"
      by (simp add: derived_dimension_def)
    from by_height [OF this] show ?thesis
      unfolding ApplyAspect_rect_horizontal [OF guard w h hor] agrees_within_one_pixel_def
      by (simp only: rect_size_after simp_thms)
  next
    case ver
    with acc have "0 <s RoundToInt unspec (fdiv (int_to_float (right r - left r)) (g_aspect s))"
      by (simp add: derived_dimension_def)
    from by_width [OF this] show ?thesis
      unfolding ApplyAspect_rect_vertical [OF guard w h ver(1)] agrees_within_one_pixel_def
      by (simp only: rect_size_after simp_thms)
  next
    case cor
    then have ne: "\<not> (edge = WMSZ_TOP \<or> edge = WMSZ_BOTTOM)"
      "\<not> (edge = WMSZ_LEFT \<or> edge = WMSZ_RIGHT)"
      using WMSZ_distinct unfolding is_corner_def by auto
    show ?thesis
    proof (cases "driveByWidth (g_aspect s) (right r - left r) (bottom r - top_edge r)")
      case True
      with acc ne
      have "0 <s RoundToInt unspec (fdiv (int_to_float (right r - left r)) (g_aspect s))"
        by (simp add: derived_dimension_def)
      from by_width [OF this] True show ?thesis
        unfolding ApplyAspect_rect_corner [OF guard w h cor] agrees_within_one_pixel_def
        by (simp only: rect_size_after simp_thms if_True split: if_split)
    next
      case False
      with acc ne
      have "0 <s RoundToInt unspec (fmul (int_to_float (bottom r - top_edge r)) (g_aspect s))"
        by (simp add: derived_dimension_def)
      from by_height [OF this] False show ?thesis
        unfolding ApplyAspect_rect_corner [OF guard w h cor] agrees_within_one_pixel_def
        by (simp only: rect_size_after simp_thms if_False split: if_split)
    qed
  qed
  with sub show ?thesis unfolding \<rho>_def by blast
qed

theorem corrected_rect_within_one_pixel_witness:
  "(0::rat) < 16 \<and> (0::rat) < 9 \<and> \<not> g_installed initial_state
   \<and> UnityAspectLock_Install (Finite 16) (Finite 9) initial_state example_os =
       (1, locked_16_9, example_os\<lparr>subclasses := {(6, kSubclassId)}\<rparr>)
   \<and> is_drag_edge WMSZ_BOTTOM
   \<and> 0 <s derived_dimension (\<lambda>v. 0) (g_aspect locked_16_9) (1600 - 0) (800 - 0) WMSZ_BOTTOM
   \<and> SubclassProc (\<lambda>v. 0) locked_16_9 WM_SIZING WMSZ_BOTTOM
        (Some \<lparr>left = 0, top_edge = 0, right = 1600, bottom = 800\<rparr>) kSubclassId =
       (ReturnedTRUE, Some \<lparr>left = 0, top_edge = 0, right = 1422, bottom = 800\<rparr>)
   \<and> agrees_within_one_pixel (16 / 9) 1422 800"
proof -
  have ni: "\<not> g_installed initial_state" by (simp add: initial_state_def)
  have w: "0 <s right \<lparr>left = 0, top_edge = 0, right = 1600, bottom = 800\<rparr>
                - left \<lparr>left = 0, top_edge = 0, right = 1600, bottom = 800 :: LONG\<rparr>"
    and h: "0 <s bottom \<lparr>left = 0, top_edge = 0, right = 1600, bottom = 800\<rparr>
                - top_edge \<lparr>left = 0, top_edge = 0, right = 1600, bottom = 800 :: LONG\<rparr>"
    by code_simp+
  have e: "is_drag_edge WMSZ_BOTTOM" by (simp add: is_drag_edge_def)
  have P: "of_int (rect_height \<lparr>left = 0, top_edge = 0, right = 1600, bottom = 800\<rparr>) * (16 / 9)
            \<le> (2::rat) ^ 20"
    and Q: "of_int (rect_width \<lparr>left = 0, top_edge = 0, right = 1600, bottom = 800\<rparr>) / (16 / 9)
            \<le> (2::rat) ^ 20"
    by code_simp+
  have acc: "0 <s derived_dimension (\<lambda>v. 0) (g_aspect locked_16_9)
      (right \<lparr>left = 0, top_edge = 0, right = 1600, bottom = 800\<rparr>
        - left \<lparr>left = 0, top_edge = 0, right = 1600, bottom = 800\<rparr>)
      (bottom \<lparr>left = 0, top_edge = 0, right = 1600, bottom = 800\<rparr>
        - top_edge \<lparr>left = 0, top_edge = 0, right = 1600, bottom = 800\<rparr>) WMSZ_BOTTOM"
    by code_simp
  have acc': "0 <s derived_dimension (\<lambda>v. 0) (g_aspect locked_16_9) (1600 - 0) (800 - 0) WMSZ_BOTTOM"
    by code_simp
  have "ApplyAspect (\<lambda>v. 0) locked_16_9
        (Some \<lparr>left = 0, top_edge = 0, right = 1600, bottom = 800\<rparr>) WMSZ_BOTTOM =
       Some \<lparr>left = 0, top_edge = 0, right = 1422, bottom = 800\<rparr>"
    by code_simp
  then have sub: "SubclassProc (\<lambda>v. 0) locked_16_9 WM_SIZING WMSZ_BOTTOM
        (Some \<lparr>left = 0, top_edge = 0, right = 1600, bottom = 800\<rparr>) kSubclassId =
       (ReturnedTRUE, Some \<lparr>left = 0, top_edge = 0, right = 1422, bottom = 800\<rparr>)"
    by (simp add: SubclassProc_def)
  have sz: "rect_width \<lparr>left = 0, top_edge = 0, right = 1422, bottom = 800\<rparr> = 1422"
    "rect_height \<lparr>left = 0, top_edge = 0, right = 1422, bottom = 800\<rparr> = 800"
    by code_simp+
  from corrected_rect_within_one_pixel [of 16 9, OF _ _ ni Install_example w h e P Q acc]
  have "agrees_within_one_pixel (16 / 9) 1422 800"
    unfolding sub using sz by auto
  with ni Install_example e acc' sub show ?thesis by simp
qed

text \<open>
  C1 as stated fails where the derived dimension is rejected: after
  \<open>UnityAspectLock_Install(4, 1)\<close> a drag of the right edge of the rectangle
  \<open>(0, 0, 1, 100)\<close> derives the height \<open>RoundToInt(1 / 4) = 0\<close>, so the rectangle stays
  \<open>1\<close> wide and \<open>100\<close> high: neither dimension is within one pixel of what the ratio
  \<open>4\<close> asks for, and the rounded quotients \<open>0\<close> and \<open>4\<close> differ by more than one.
\<close>

theorem rejected_dimension_keeps_wrong_ratio:
  "UnityAspectLock_Install (Finite 4) (Finite 1) initial_state example_os =
     (1, \<lparr>g_hwnd = 6, g_installed = True, g_aspect = Finite 4\<rparr>,
      example_os\<lparr>subclasses := {(6, kSubclassId)}\<rparr>)
   \<and> SubclassProc (\<lambda>v. 0) \<lparr>g_hwnd = 6, g_installed = True, g_aspect = Finite 4\<rparr>
        WM_SIZING WMSZ_RIGHT (Some \<lparr>left = 0, top_edge = 0, right = 1, bottom = 100\<rparr>)
        kSubclassId =
       (ReturnedTRUE, Some \<lparr>left = 0, top_edge = 0, right = 1, bottom = 100\<rparr>)
   \<and> rect_width \<lparr>left = 0, top_edge = 0, right = 1, bottom = 100\<rparr> = 1
   \<and> rect_height \<lparr>left = 0, top_edge = 0, right = 1, bottom = 100\<rparr> = 100
   \<and> \<not> agrees_within_one_pixel (4 / 1) 1 100
   \<and> \<not> \<bar>round_half_away (1 / 100) - round_half_away (4 / 1)\<bar> \<le> 1"
proof -
  have "\<not> g_installed initial_state" "\<not> fle (Finite 4) (Finite 0)" "\<not> fle (Finite 1) (Finite 0)"
    by (simp_all add: initial_state_def)
  from Install_fresh [OF this, of example_os]
  have "UnityAspectLock_Install (Finite 4) (Finite 1) initial_state example_os =
     (1, \<lparr>g_hwnd = 6, g_installed = True, g_aspect = fdiv (Finite 4) (Finite 1)\<rparr>,
      example_os\<lparr>subclasses := {(6, kSubclassId)}\<rparr>)"
    by (simp add: FindMainWindow_example initial_state_def del: fdiv.simps)
       (simp add: example_os_def)
  moreover have "fdiv (Finite 4) (Finite 1) = Finite 4" by code_simp
  moreover have "ApplyAspect (\<lambda>v. 0) \<lparr>g_hwnd = 6, g_installed = True, g_aspect = Finite 4\<rparr>
        (Some \<lparr>left = 0, top_edge = 0, right = 1, bottom = 100\<rparr>) WMSZ_RIGHT =
       Some \<lparr>left = 0, top_edge = 0, right = 1, bottom = 100\<rparr>"
    by code_simp
  then have "SubclassProc (\<lambda>v. 0) \<lparr>g_hwnd = 6, g_installed = True, g_aspect = Finite 4\<rparr>
        WM_SIZING WMSZ_RIGHT (Some \<lparr>left = 0, top_edge = 0, right = 1, bottom = 100\<rparr>)
        kSubclassId =
       (ReturnedTRUE, Some \<lparr>left = 0, top_edge = 0, right = 1, bottom = 100\<rparr>)"
    by (simp add: SubclassProc_def)
  moreover have "rect_width \<lparr>left = 0, top_edge = 0, right = 1, bottom = 100\<rparr> = 1"
    "rect_height \<lparr>left = 0, top_edge = 0, right = 1, bottom = 100\<rparr> = 100"
    by code_simp+
  moreover have "\<not> agrees_within_one_pixel (4 / 1) 1 100"
    by code_simp
  moreover have "\<not> \<bar>round_half_away (1 / 100) - round_half_away (4 / 1)\<bar> \<le> 1"
    by code_simp
  ultimately show ?thesis by (simp only: simp_thms)
qed

text \<open>
  The bound on the size cannot be dropped: single precision has 24 significant bits.
  With the ratio \<open>1 : 1\<close>, a drag of the bottom edge of a rectangle that is
  \<open>2\<^sup>2\<^sup>6 + 6\<close> high derives the width \<open>2\<^sup>2\<^sup>6 + 8\<close>.
\<close>

lemma large_rect_off_by_two:
  "SubclassProc (\<lambda>v. 0) \<lparr>g_hwnd = 6, g_installed = True, g_aspect = fdiv (Finite 1) (Finite 1)\<rparr>
        WM_SIZING WMSZ_BOTTOM (Some \<lparr>left = 0, top_edge = 0, right = 100, bottom = 67108870\<rparr>)
        kSubclassId =
       (ReturnedTRUE, Some \<lparr>left = 0, top_edge = 0, right = 67108872, bottom = 67108870\<rparr>)
   \<and> \<not> agrees_within_one_pixel (1 / 1) 67108872 67108870"
proof -
  have "ApplyAspect (\<lambda>v. 0) \<lparr>g_hwnd = 6, g_installed = True, g_aspect = fdiv (Finite 1) (Finite 1)\<rparr>
        (Some \<lparr>left = 0, top_edge = 0, right = 100, bottom = 67108870\<rparr>) WMSZ_BOTTOM =
       Some \<lparr>left = 0, top_edge = 0, right = 67108872, bottom = 67108870\<rparr>"
    by code_simp
  moreover have "\<not> agrees_within_one_pixel (1 / 1) 67108872 67108870"
    by code_simp
  ultimately show ?thesis by (simp add: SubclassProc_def del: fdiv.simps)
qed

end
